theory Spec2Isabelle
  imports Complex_Main "HOL-Library.Word" "HOL-Library.Log_Nat"
begin

section \<open>Machine arithmetic shared by the embedded functions\<close>

text \<open>
  The firmware mixes \<open>uint16_t\<close>, \<open>int16_t\<close>, \<open>int32_t\<close>, \<open>uint32_t\<close> and \<open>float\<close>.
  Millisecond timestamps and the 32-bit counters are \<open>32 word\<close> (subtraction wraps, as
  \<open>millis() - last\<close> does). The narrower integers are \<open>int\<close> with every narrowing
  conversion written out by the functions below. A \<open>float\<close> is the \<open>real\<close> number it
  denotes; the single-precision operations of the surplus regulator (voltages, reserve,
  surplus power) are rounded to binary32 by \<open>f32\<close> below, one rounding per operation.
  The base limiter's corrected voltage and the regulator's state-of-charge thresholds are
  compared as exact reals.
\<close>

definition u16 :: "int \<Rightarrow> int" where
  "u16 x = x mod 65536"

definition s16 :: "int \<Rightarrow> int" where
  "s16 x = (x + 32768) mod 65536 - 32768"

definition s8 :: "int \<Rightarrow> int" where
  "s8 x = (x + 128) mod 256 - 128"

text \<open>Conversion of a floating value to an integer type truncates towards zero.\<close>

definition c_trunc :: "real \<Rightarrow> int" where
  "c_trunc x = (if 0 \<le> x then \<lfloor>x\<rfloor> else \<lceil>x\<rceil>)"

text \<open>
  Rounding to binary32 (IEEE 754 single precision), to nearest with ties to even: for
  \<open>x \<noteq> 0\<close> with \<open>2 ^ e \<le> |x| < 2 ^ (e + 1)\<close> the result is the nearest multiple of
  \<open>2 ^ (e - 23)\<close> (of \<open>2 ^ -149\<close> below the normal range). Overflow to infinity is
  not modelled; the values of the regulator stay far below \<open>2 ^ 128\<close>.
\<close>

definition pow2 :: "int \<Rightarrow> real" where
  "pow2 k = (if 0 \<le> k then 2 ^ nat k else 1 / 2 ^ nat (- k))"

definition exponent2 :: "real \<Rightarrow> int" where
  "exponent2 x =
     (if 1 \<le> \<bar>x\<bar> then bitlen \<lfloor>\<bar>x\<bar>\<rfloor> - 1 else - bitlen (\<lceil>1 / \<bar>x\<bar>\<rceil> - 1))"

definition round_half_even :: "real \<Rightarrow> int" where
  "round_half_even y =
     (let n = \<lfloor>y\<rfloor>; d = y - real_of_int n
      in if d < 1 / 2 then n else if 1 / 2 < d then n + 1
         else if even n then n else n + 1)"

definition f32 :: "real \<Rightarrow> real" where
  "f32 x =
     (if x = 0 then 0
      else (let e = max (exponent2 x) (- 126)
            in real_of_int (round_half_even (x * pow2 (23 - e))) * pow2 (e - 23)))"

text \<open>The single-precision operations and the conversion of an integer to \<open>float\<close>.\<close>

definition fadd :: "real \<Rightarrow> real \<Rightarrow> real" where
  "fadd a b = f32 (a + b)"

definition fsub :: "real \<Rightarrow> real \<Rightarrow> real" where
  "fsub a b = f32 (a - b)"

definition fmul :: "real \<Rightarrow> real \<Rightarrow> real" where
  "fmul a b = f32 (a * b)"

definition fdiv :: "real \<Rightarrow> real \<Rightarrow> real" where
  "fdiv a b = f32 (a / b)"

definition float_of_int :: "int \<Rightarrow> real" where
  "float_of_int n = f32 (real_of_int n)"

text \<open>Integer division of C++ truncates towards zero.\<close>

definition c_div :: "int \<Rightarrow> int \<Rightarrow> int" where
  "c_div a b = sgn a * sgn b * (\<bar>a\<bar> div \<bar>b\<bar>)"

text \<open>Arduino's \<open>constrain(amt, low, high)\<close> macro.\<close>

definition constrain :: "int \<Rightarrow> int \<Rightarrow> int \<Rightarrow> int" where
  "constrain amt low high = (if amt < low then low else if amt > high then high else amt)"


section \<open>Power-meter provider (src/unnamed/part\_001, include/powermeter/Provider.h)\<close>

record Provider =
  lastUpdate :: "32 word"
  lastMqttPublish :: "32 word"

text \<open>The member initialisers of the class: both timestamps start at 0.\<close>

definition Provider_init :: Provider where
  "Provider_init = \<lparr>lastUpdate = 0, lastMqttPublish = 0\<rparr>"

text \<open>\<open>gotUpdate()\<close>: \<open>_lastUpdate = millis()\<close>.\<close>

definition gotUpdate :: "32 word \<Rightarrow> Provider \<Rightarrow> Provider" where
  "gotUpdate millis p = p\<lparr>lastUpdate := millis\<rparr>"

text \<open>\<open>isDataValid()\<close>: \<open>_lastUpdate > 0 && ((millis() - _lastUpdate) < (30 * 1000))\<close>.\<close>

definition isDataValid :: "32 word \<Rightarrow> Provider \<Rightarrow> bool" where
  "isDataValid millis p = (lastUpdate p > 0 \<and> millis - lastUpdate p < 30 * 1000)"


section \<open>Field descriptors of the HM\_2CH model (HM\_2CH.cpp, src/unnamed/part\_000)\<close>

text \<open>
  Modelled from the spec: the channel kind of a descriptor (\<open>ChannelType_t\<close>, whose
  declaration is not among the sources); the table uses the three kinds below.
\<close>

datatype ChannelType_t = TYPE_AC | TYPE_DC | TYPE_INV

text \<open>The enumerations of part\_000, with their C values.\<close>

abbreviation (input) UNIT_V :: nat where "UNIT_V \<equiv> 0"
abbreviation (input) UNIT_A :: nat where "UNIT_A \<equiv> 1"
abbreviation (input) UNIT_W :: nat where "UNIT_W \<equiv> 2"
abbreviation (input) UNIT_WH :: nat where "UNIT_WH \<equiv> 3"
abbreviation (input) UNIT_KWH :: nat where "UNIT_KWH \<equiv> 4"
abbreviation (input) UNIT_HZ :: nat where "UNIT_HZ \<equiv> 5"
abbreviation (input) UNIT_C :: nat where "UNIT_C \<equiv> 6"
abbreviation (input) UNIT_PCT :: nat where "UNIT_PCT \<equiv> 7"
abbreviation (input) UNIT_VAR :: nat where "UNIT_VAR \<equiv> 8"
abbreviation (input) UNIT_NONE :: nat where "UNIT_NONE \<equiv> 9"

abbreviation (input) FLD_UDC :: nat where "FLD_UDC \<equiv> 0"
abbreviation (input) FLD_IDC :: nat where "FLD_IDC \<equiv> 1"
abbreviation (input) FLD_PDC :: nat where "FLD_PDC \<equiv> 2"
abbreviation (input) FLD_YD :: nat where "FLD_YD \<equiv> 3"
abbreviation (input) FLD_YT :: nat where "FLD_YT \<equiv> 4"
abbreviation (input) FLD_UAC :: nat where "FLD_UAC \<equiv> 5"
abbreviation (input) FLD_IAC :: nat where "FLD_IAC \<equiv> 6"
abbreviation (input) FLD_PAC :: nat where "FLD_PAC \<equiv> 7"
abbreviation (input) FLD_F :: nat where "FLD_F \<equiv> 8"
abbreviation (input) FLD_T :: nat where "FLD_T \<equiv> 9"
abbreviation (input) FLD_PF :: nat where "FLD_PF \<equiv> 10"
abbreviation (input) FLD_EFF :: nat where "FLD_EFF \<equiv> 11"
abbreviation (input) FLD_IRR :: nat where "FLD_IRR \<equiv> 12"
abbreviation (input) FLD_Q :: nat where "FLD_Q \<equiv> 13"
abbreviation (input) FLD_EVT_LOG :: nat where "FLD_EVT_LOG \<equiv> 14"

abbreviation (input) CH0 :: nat where "CH0 \<equiv> 0"
abbreviation (input) CH1 :: nat where "CH1 \<equiv> 1"

abbreviation (input) CMD_CALC :: nat where "CMD_CALC \<equiv> 65535"

text \<open>
  Modelled from the spec: the indices of the calculation functions under the names the
  table uses (part\_000 declares the same six functions, in this order, under older
  names). No statement below depends on their values.
\<close>

abbreviation (input) CALC_TOTAL_YT :: nat where "CALC_TOTAL_YT \<equiv> 0"
abbreviation (input) CALC_TOTAL_YD :: nat where "CALC_TOTAL_YD \<equiv> 1"
abbreviation (input) CALC_TOTAL_PDC :: nat where "CALC_TOTAL_PDC \<equiv> 3"
abbreviation (input) CALC_TOTAL_EFF :: nat where "CALC_TOTAL_EFF \<equiv> 4"
abbreviation (input) CALC_CH_IRR :: nat where "CALC_CH_IRR \<equiv> 5"

text \<open>\<open>byteAssign_t\<close>; the fields \<open>type\<close> and \<open>div\<close> carry a suffix.\<close>

record byteAssign_t =
  type_f :: ChannelType_t
  ch :: nat
  fieldId :: nat
  unitId :: nat
  start :: nat
  num :: nat
  div_f :: nat
  isSigned :: bool
  digits :: nat

definition mk :: "ChannelType_t \<Rightarrow> nat \<Rightarrow> nat \<Rightarrow> nat \<Rightarrow> nat \<Rightarrow> nat \<Rightarrow> nat \<Rightarrow> bool \<Rightarrow> nat
    \<Rightarrow> byteAssign_t" where
  "mk t c f u s n d sg dg =
     \<lparr>type_f = t, ch = c, fieldId = f, unitId = u, start = s, num = n, div_f = d,
      isSigned = sg, digits = dg\<rparr>"

definition byteAssignment :: "byteAssign_t list" where
  "byteAssignment =
    [ mk TYPE_DC CH0 FLD_UDC UNIT_V 2 2 10 False 1,
      mk TYPE_DC CH0 FLD_IDC UNIT_A 4 2 100 False 2,
      mk TYPE_DC CH0 FLD_PDC UNIT_W 6 2 10 False 1,
      mk TYPE_DC CH0 FLD_YD UNIT_WH 22 2 1 False 0,
      mk TYPE_DC CH0 FLD_YT UNIT_KWH 14 4 1000 False 3,
      mk TYPE_DC CH0 FLD_IRR UNIT_PCT CALC_CH_IRR CH0 CMD_CALC False 3,

      mk TYPE_DC CH1 FLD_UDC UNIT_V 8 2 10 False 1,
      mk TYPE_DC CH1 FLD_IDC UNIT_A 10 2 100 False 2,
      mk TYPE_DC CH1 FLD_PDC UNIT_W 12 2 10 False 1,
      mk TYPE_DC CH1 FLD_YD UNIT_WH 24 2 1 False 0,
      mk TYPE_DC CH1 FLD_YT UNIT_KWH 18 4 1000 False 3,
      mk TYPE_DC CH1 FLD_IRR UNIT_PCT CALC_CH_IRR CH1 CMD_CALC False 3,

      mk TYPE_AC CH0 FLD_UAC UNIT_V 26 2 10 False 1,
      mk TYPE_AC CH0 FLD_IAC UNIT_A 34 2 100 False 2,
      mk TYPE_AC CH0 FLD_PAC UNIT_W 30 2 10 False 1,
      mk TYPE_AC CH0 FLD_Q UNIT_VAR 32 2 10 False 1,
      mk TYPE_AC CH0 FLD_F UNIT_HZ 28 2 100 False 2,
      mk TYPE_AC CH0 FLD_PF UNIT_NONE 36 2 1000 False 3,

      mk TYPE_INV CH0 FLD_T UNIT_C 38 2 10 True 1,
      mk TYPE_INV CH0 FLD_EVT_LOG UNIT_NONE 40 2 1 False 0,

      mk TYPE_INV CH0 FLD_YD UNIT_WH CALC_TOTAL_YD 0 CMD_CALC False 0,
      mk TYPE_INV CH0 FLD_YT UNIT_KWH CALC_TOTAL_YT 0 CMD_CALC False 3,
      mk TYPE_INV CH0 FLD_PDC UNIT_W CALC_TOTAL_PDC 0 CMD_CALC False 1,
      mk TYPE_INV CH0 FLD_EFF UNIT_PCT CALC_TOTAL_EFF 0 CMD_CALC False 3 ]"

text \<open>The two keys a descriptor can be looked up by.\<close>

definition key_ch_field :: "byteAssign_t \<Rightarrow> nat \<times> nat" where
  "key_ch_field b = (ch b, fieldId b)"

definition key_type_ch_field :: "byteAssign_t \<Rightarrow> ChannelType_t \<times> nat \<times> nat" where
  "key_type_ch_field b = (type_f b, ch b, fieldId b)"


section \<open>Base power limiter (\<open>PowerLimiterClass::loop\<close>)\<close>

text \<open>
  The configuration fields the loop reads. Their declarations are not among the sources:
  the interval is taken as a 32-bit unsigned number of seconds, the thresholds and the
  correction factor as floating values, the power bounds as integers (the loop converts
  them to \<open>uint16_t\<close> where it uses them).
\<close>

record CONFIG_T =
  PowerLimiter_Enabled :: bool
  PowerLimiter_Interval :: "32 word"
  PowerLimiter_VoltageStartThreshold :: real
  PowerLimiter_VoltageStopThreshold :: real
  PowerLimiter_VoltageLoadCorrectionFactor :: real
  PowerLimiter_LowerPowerLimit :: int
  PowerLimiter_UpperPowerLimit :: int
  PowerLimiter_IsInverterBehindPowerMeter :: bool

text \<open>The members of \<open>PowerLimiterClass\<close>; \<open>_lastRequestedPowerLimit\<close> holds a 16-bit value.\<close>

record PowerLimiterClass =
  lastCommandSent :: "32 word"
  lastLoop :: "32 word"
  lastPowerMeterUpdate :: "32 word"
  lastRequestedPowerLimit :: int
  powerMeter1Power :: real
  powerMeter2Power :: real
  powerMeter3Power :: real

text \<open>
  What the loop reads from the inverter at position 0: \<open>isReachable()\<close>,
  \<open>Statistics()->getLastUpdate()\<close>, \<open>isProducing()\<close>, and the decoded fields
  \<open>(CH1, FLD_UDC)\<close> and \<open>(CH0, FLD_PAC)\<close>.
\<close>

record inverter_t =
  isReachable :: bool
  getLastUpdate :: "32 word"
  isProducing :: bool
  udc_CH1 :: real
  pac_CH0 :: real

text \<open>
  The collaborators of one tick: \<open>MqttSettings.getConnected()\<close>,
  \<open>Hoymiles.getRadio()->isIdle()\<close> and \<open>Hoymiles.getInverterByPos(0)\<close>
  (\<open>None\<close> for \<open>nullptr\<close>). \<open>millis()\<close> is one value per tick.
\<close>

record limiter_env =
  getConnected :: bool
  isIdle :: bool
  getInverterByPos0 :: "inverter_t option"

datatype PowerLimitControlType = AbsolutNonPersistent | RelativNonPersistent
  | AbsolutPersistent | RelativPersistent

text \<open>The commands handed to the inverter, in the order the loop sends them.\<close>

datatype command =
    sendPowerControlRequest bool
  | sendActivePowerControlRequest int PowerLimitControlType

text \<open>Lines 241-264 of the loop: the new limit, computed in a \<open>uint16_t\<close> variable.\<close>

definition newPowerLimit :: "CONFIG_T \<Rightarrow> 32 word \<Rightarrow> PowerLimiterClass \<Rightarrow> int" where
  "newPowerLimit config millis s =
    (if millis - lastPowerMeterUpdate s < 30 * 1000 then
       (let n0 = u16 (c_trunc (powerMeter1Power s + powerMeter2Power s + powerMeter3Power s));
            n1 = (if PowerLimiter_IsInverterBehindPowerMeter config
                  then u16 (n0 + lastRequestedPowerLimit s) else n0);
            n2 = u16 (n1 - 10)
        in constrain n2 (u16 (PowerLimiter_LowerPowerLimit config))
                        (u16 (PowerLimiter_UpperPowerLimit config)))
     else u16 (PowerLimiter_LowerPowerLimit config))"

definition loop :: "CONFIG_T \<Rightarrow> 32 word \<Rightarrow> limiter_env \<Rightarrow> PowerLimiterClass
    \<Rightarrow> PowerLimiterClass \<times> command list" where
  "loop config millis env s =
    (if \<not> PowerLimiter_Enabled config
        \<or> \<not> getConnected env
        \<or> \<not> isIdle env
        \<or> millis - lastCommandSent s < PowerLimiter_Interval config * 1000
        \<or> millis - lastLoop s < PowerLimiter_Interval config * 1000
     then (s, [])
     else
      (let s1 = s\<lparr>lastLoop := millis\<rparr> in
       case getInverterByPos0 env of
         None \<Rightarrow> (s1, [])
       | Some inverter \<Rightarrow>
          if \<not> isReachable inverter then (s1, [])
          else if millis - getLastUpdate inverter > 10000 then (s1, [])
          else
           (let dcVoltage = udc_CH1 inverter in
            if isProducing inverter then
             (let acPower = pac_CH0 inverter;
                  correctedDcVoltage =
                    dcVoltage + acPower * PowerLimiter_VoltageLoadCorrectionFactor config
              in
              if dcVoltage > 0
                 \<and> PowerLimiter_VoltageStopThreshold config > 0
                 \<and> correctedDcVoltage \<le> PowerLimiter_VoltageStopThreshold config
              then
               (let n = u16 (PowerLimiter_LowerPowerLimit config) in
                (s1\<lparr>lastRequestedPowerLimit := n, lastCommandSent := millis\<rparr>,
                 [sendPowerControlRequest False,
                  sendActivePowerControlRequest n AbsolutNonPersistent]))
              else
               (let n = newPowerLimit config millis s1 in
                (s1\<lparr>lastRequestedPowerLimit := n, lastCommandSent := millis\<rparr>,
                 [sendActivePowerControlRequest n AbsolutNonPersistent])))
            else
             (if dcVoltage > 0
                 \<and> PowerLimiter_VoltageStartThreshold config > 0
                 \<and> dcVoltage \<ge> PowerLimiter_VoltageStartThreshold config
              then (s1\<lparr>lastCommandSent := millis\<rparr>, [sendPowerControlRequest True])
              else (s1, [])))))"

text \<open>
  The conditions under which a tick is active for a given inverter: none of the early
  returns of lines 180-198 is taken.
\<close>

definition active_tick :: "CONFIG_T \<Rightarrow> 32 word \<Rightarrow> limiter_env \<Rightarrow> PowerLimiterClass
    \<Rightarrow> inverter_t \<Rightarrow> bool" where
  "active_tick config millis env s inverter =
    (PowerLimiter_Enabled config \<and> getConnected env \<and> isIdle env
     \<and> \<not> millis - lastCommandSent s < PowerLimiter_Interval config * 1000
     \<and> \<not> millis - lastLoop s < PowerLimiter_Interval config * 1000
     \<and> getInverterByPos0 env = Some inverter
     \<and> isReachable inverter
     \<and> \<not> millis - getLastUpdate inverter > 10000)"

text \<open>\<open>correctedVoltage = dcVoltage + acPower * voltageLoadCorrectionFactor\<close>.\<close>

definition correctedVoltage :: "CONFIG_T \<Rightarrow> inverter_t \<Rightarrow> real" where
  "correctedVoltage config inverter =
     udc_CH1 inverter + pac_CH0 inverter * PowerLimiter_VoltageLoadCorrectionFactor config"

text \<open>The stop branch of lines 211-213 is not taken: the voltage is acceptable.\<close>

definition voltage_acceptable :: "CONFIG_T \<Rightarrow> inverter_t \<Rightarrow> bool" where
  "voltage_acceptable config inverter =
    (\<not> (udc_CH1 inverter > 0
        \<and> PowerLimiter_VoltageStopThreshold config > 0
        \<and> correctedVoltage config inverter \<le> PowerLimiter_VoltageStopThreshold config))"

text \<open>Concrete inputs used by the examples below.\<close>

definition config_ex :: CONFIG_T where
  "config_ex = \<lparr>PowerLimiter_Enabled = True, PowerLimiter_Interval = 10,
     PowerLimiter_VoltageStartThreshold = 50, PowerLimiter_VoltageStopThreshold = 49,
     PowerLimiter_VoltageLoadCorrectionFactor = 1 / 1000,
     PowerLimiter_LowerPowerLimit = 50, PowerLimiter_UpperPowerLimit = 800,
     PowerLimiter_IsInverterBehindPowerMeter = False\<rparr>"

definition limiter_ex :: "real \<Rightarrow> PowerLimiterClass" where
  "limiter_ex p = \<lparr>lastCommandSent = 40000, lastLoop = 40000,
     lastPowerMeterUpdate = 55000, lastRequestedPowerLimit = 300,
     powerMeter1Power = p, powerMeter2Power = 0, powerMeter3Power = 0\<rparr>"

definition inverter_ex :: "real \<Rightarrow> inverter_t" where
  "inverter_ex udc = \<lparr>isReachable = True, getLastUpdate = 58000, isProducing = True,
     udc_CH1 = udc, pac_CH0 = 200\<rparr>"

definition env_ex :: "real \<Rightarrow> limiter_env" where
  "env_ex udc = \<lparr>getConnected = True, isIdle = True,
     getInverterByPos0 = Some (inverter_ex udc)\<rparr>"


section \<open>Surplus regulator (SurplusPower.cpp, src/unnamed/part\_003)\<close>

abbreviation (input) MODE_BULK :: nat where "MODE_BULK \<equiv> 3"
abbreviation (input) MODE_ABSORPTION :: nat where "MODE_ABSORPTION \<equiv> 4"
abbreviation (input) MODE_FLOAT :: nat where "MODE_FLOAT \<equiv> 5"
abbreviation (input) RESERVE_POWER_MAX :: int where "RESERVE_POWER_MAX \<equiv> 99999"
abbreviation (input) EFFICIENCY_MPPT :: real where "EFFICIENCY_MPPT \<equiv> f32 (97 / 100)"
abbreviation (input) EFFICIENCY_INVERTER :: real where "EFFICIENCY_INVERTER \<equiv> f32 (94 / 100)"

datatype State = IDLE | TRY_MORE | REDUCE_POWER | IN_TARGET | MAXIMUM_POWER
  | KEEP_LAST_POWER | BULK_POWER

datatype Switch = STAGE_I_ON | STAGE_I_OFF | STAGE_I_ASK
  | STAGE_II_ON | STAGE_II_OFF | STAGE_II_ASK

text \<open>
  Modelled from the spec: the weighted moving-average helper \<open>WeightedAVG\<close>
  (Statistic.h is not among the sources), as the bounded-window average the spec
  describes: the last \<open>countMax\<close> samples are kept and averaged; with no sample the
  average is 0.
\<close>

record WeightedAVG =
  countMax :: nat
  samples :: "real list"

definition WeightedAVG_init :: "nat \<Rightarrow> WeightedAVG" where
  "WeightedAVG_init n = \<lparr>countMax = n, samples = []\<rparr>"

definition addNumber :: "real \<Rightarrow> WeightedAVG \<Rightarrow> WeightedAVG" where
  "addNumber x w = w\<lparr>samples := take (countMax w) (x # samples w)\<rparr>"

definition getAverage :: "WeightedAVG \<Rightarrow> real" where
  "getAverage w =
     (if samples w = [] then 0 else sum_list (samples w) / real (length (samples w)))"

definition reset :: "WeightedAVG \<Rightarrow> WeightedAVG" where
  "reset w = w\<lparr>samples := []\<rparr>"

text \<open>
  The members of \<open>SurplusPowerClass\<close> (part\_003), without the leading underscore. The
  \<open>int32_t\<close>, \<open>int16_t\<close> and \<open>int8_t\<close> members are \<open>int\<close>; the \<open>uint32_t\<close>
  members are \<open>32 word\<close>.
\<close>

record SurplusPowerClass =
  stageIIEnabled :: bool
  stageIITempOff :: bool
  surplusState :: State
  surplusPower :: int
  powerStepSize :: int
  lastInTargetMillis :: "32 word"
  lastCalcMillis :: "32 word"
  surplusUpperPowerLimit :: int
  avgMPPTVoltage :: WeightedAVG
  qualityCounter :: int
  qualityAVG :: WeightedAVG
  lastAddPower :: int
  overruleCounter :: "32 word"
  errorCounter :: "32 word"
  stageIEnabled :: bool
  stageITempOff :: bool
  batteryReserve :: int
  batterySafetyPercent :: real
  batteryCapacity :: int
  durationAbsorptionToSunset :: int
  durationNowToAbsorption :: int
  solarPower :: int
  startSoC :: real
  lastReserveCalcMillis :: "32 word"
  avgCellVoltage :: WeightedAVG

text \<open>The configuration values the regulator reads.\<close>

record surplus_config =
  TotalUpperPowerLimit :: int
  TargetPowerConsumptionHysteresis :: int
  Battery_Enabled :: bool

text \<open>
  The external readings of one call. \<open>VictronMppt.getStateOfOperation()\<close> and
  \<open>VictronMppt.getVoltage(...)\<close> return optionals (voltages in mV);
  \<open>getPowerOutputWatts\<close> is the value as stored into the \<open>int32_t\<close> member
  \<open>_solarPower\<close> (-1 when unavailable); the battery statistics give current and state
  of charge with validity and age; \<open>getLocalTime\<close> and \<open>sunsetTime\<close> give
  \<open>(tm_hour, tm_min)\<close> when they succeed.
\<close>

record surplus_env =
  getStateOfOperation :: "nat option"
  getVoltage_ABSORPTION :: "real option"
  getVoltage_FLOAT :: "real option"
  getVoltage_BATTERY :: "real option"
  getPowerOutputWatts :: int
  isCurrentValid :: bool
  getAgeSeconds :: nat
  getChargeCurrent :: real
  isSoCValid :: bool
  getSoCAgeSeconds :: nat
  getSoC :: real
  getLocalTime :: "(int \<times> int) option"
  sunsetTime :: "(int \<times> int) option"

text \<open>The default member initialisers of part\_003.\<close>

definition SurplusPowerClass_members :: SurplusPowerClass where
  "SurplusPowerClass_members =
    \<lparr>stageIIEnabled = False, stageIITempOff = False, surplusState = IDLE,
     surplusPower = 0, powerStepSize = 0, lastInTargetMillis = 0, lastCalcMillis = 0,
     surplusUpperPowerLimit = 0, avgMPPTVoltage = WeightedAVG_init 5,
     qualityCounter = 0, qualityAVG = WeightedAVG_init 20, lastAddPower = 0,
     overruleCounter = 0, errorCounter = 0, stageIEnabled = False, stageITempOff = False,
     batteryReserve = 0, batterySafetyPercent = 0, batteryCapacity = 0,
     durationAbsorptionToSunset = 0, durationNowToAbsorption = 0, solarPower = 0,
     startSoC = 0, lastReserveCalcMillis = 0, avgCellVoltage = WeightedAVG_init 20\<rparr>"

definition updateSettings :: "surplus_config \<Rightarrow> SurplusPowerClass \<Rightarrow> SurplusPowerClass" where
  "updateSettings config s =
    (let s1 = s\<lparr>stageIEnabled := False, startSoC := 80, batteryCapacity := 2500,
                 batterySafetyPercent := 30, durationAbsorptionToSunset := 30,
                 surplusUpperPowerLimit := 0, stageIIEnabled := True\<rparr>;
         s2 = (if startSoC s1 < 40 \<or> startSoC s1 > 100 then s1\<lparr>startSoC := 70\<rparr> else s1);
         s3 = (if batteryCapacity s2 < 100 \<or> batteryCapacity s2 > 40000
               then s2\<lparr>batteryCapacity := 2500\<rparr> else s2);
         s4 = (if batterySafetyPercent s3 < 0 \<or> batterySafetyPercent s3 > 100
               then s3\<lparr>batterySafetyPercent := 20\<rparr> else s3);
         s5 = (if durationAbsorptionToSunset s4 < 0 \<or> durationAbsorptionToSunset s4 > 4 * 60
               then s4\<lparr>durationAbsorptionToSunset := 60\<rparr> else s4);
         s6 = (if surplusUpperPowerLimit s5 = 0
               then s5\<lparr>surplusUpperPowerLimit := TotalUpperPowerLimit config\<rparr> else s5);
         s7 = s6\<lparr>powerStepSize := s16 (c_div (surplusUpperPowerLimit s6) 20)\<rparr>
     in s7\<lparr>powerStepSize :=
            s16 (max (powerStepSize s7) (s16 (TargetPowerConsumptionHysteresis config)) + 1)\<rparr>)"

text \<open>The constructor: the member initialisers followed by \<open>updateSettings()\<close>.\<close>

definition SurplusPowerClass_new :: "surplus_config \<Rightarrow> SurplusPowerClass" where
  "SurplusPowerClass_new config = updateSettings config SurplusPowerClass_members"

text \<open>\<open>getTimeToSunset()\<close>: minutes to sunset, 0 after sunset or when a time is missing.\<close>

definition getTimeToSunset :: "surplus_env \<Rightarrow> SurplusPowerClass \<Rightarrow> int \<times> SurplusPowerClass" where
  "getTimeToSunset env s =
    (case getLocalTime env of
       None \<Rightarrow> (0, s\<lparr>errorCounter := errorCounter s + 1\<rparr>)
     | Some actTime \<Rightarrow>
        (case sunsetTime env of
           None \<Rightarrow> (0, s\<lparr>errorCounter := errorCounter s + 1\<rparr>)
         | Some sunset \<Rightarrow>
            (let timeToSunset =
                   s16 (fst sunset * 60 + snd sunset - fst actTime * 60 - snd actTime)
             in (if timeToSunset < 0 then 0 else timeToSunset, s))))"

text \<open>
  The reserve formula of lines 398-399, before the conversion to \<open>int32_t\<close>:
  \<open>_batteryCapacity * (0.998f - actSoC / 100.0f) / _durationNowToAbsorption * 60 *
  (1.0f + _batterySafetyPercent / 100.0f)\<close>, evaluated left to right in single
  precision.
\<close>

definition reserveFormula :: "int \<Rightarrow> real \<Rightarrow> int \<Rightarrow> real \<Rightarrow> real" where
  "reserveFormula capacity actSoC minutes safetyPercent =
     fmul (fmul (fdiv (fmul (float_of_int capacity) (fsub (f32 0.998) (fdiv actSoC 100)))
                      (float_of_int minutes))
                (float_of_int 60))
          (fadd 1 (fdiv safetyPercent 100))"

text \<open>The same formula in exact arithmetic, for comparison.\<close>

definition reserveFormula_exact :: "int \<Rightarrow> real \<Rightarrow> int \<Rightarrow> real \<Rightarrow> real" where
  "reserveFormula_exact capacity actSoC minutes safetyPercent =
     real_of_int capacity * (0.998 - actSoC / 100) / real_of_int minutes * 60
       * (1 + safetyPercent / 100)"

text \<open>Lines 387-405 of \<open>calcBulkMode\<close>: the body of the five-minute recalculation.\<close>

definition reserveCalc :: "32 word \<Rightarrow> surplus_env \<Rightarrow> real \<Rightarrow> SurplusPowerClass
    \<Rightarrow> SurplusPowerClass" where
  "reserveCalc millis env actSoC s =
    (let s1 = s\<lparr>lastReserveCalcMillis := millis\<rparr>;
         (t, s2) = getTimeToSunset env s1;
         s3 = s2\<lparr>durationNowToAbsorption := s16 (t - durationAbsorptionToSunset s2)\<rparr>
     in if durationNowToAbsorption s3 > 0
        then s3\<lparr>batteryReserve :=
                 max (c_trunc (reserveFormula (batteryCapacity s3) actSoC
                        (durationNowToAbsorption s3) (batterySafetyPercent s3))) 0\<rparr>
        else s3\<lparr>batteryReserve := RESERVE_POWER_MAX, durationNowToAbsorption := 0\<rparr>)"

text \<open>The battery provider delivers a usable state of charge (line 347).\<close>

definition socAvailable :: "surplus_config \<Rightarrow> surplus_env \<Rightarrow> bool" where
  "socAvailable config env =
     (Battery_Enabled config \<and> isSoCValid env \<and> getSoCAgeSeconds env < 60)"

definition calcBulkMode :: "surplus_config \<Rightarrow> 32 word \<Rightarrow> surplus_env \<Rightarrow> SurplusPowerClass
    \<Rightarrow> int \<Rightarrow> int \<times> SurplusPowerClass" where
  "calcBulkMode config millis env s requestedPower =
    (let startValue = startSoC s;
         stopValue = startSoC s - 2
     in
     if \<not> socAvailable config env
     then (requestedPower, s\<lparr>errorCounter := errorCounter s + 1\<rparr>)
     else
      (let actValue = getSoC env in
       if actValue \<le> stopValue \<or> (actValue < startValue \<and> surplusState s = IDLE)
       then (requestedPower, s\<lparr>surplusPower := 0, surplusState := IDLE\<rparr>)
       else
        (let s1 = s\<lparr>solarPower := getPowerOutputWatts env\<rparr> in
         if solarPower s1 = - 1
         then (requestedPower, s1\<lparr>errorCounter := errorCounter s1 + 1\<rparr>)
         else
          (let s2 = (if surplusState s1 = IDLE
                     then s1\<lparr>batteryReserve := RESERVE_POWER_MAX,
                             lastReserveCalcMillis := 0, surplusPower := 0,
                             errorCounter := 0\<rparr>
                     else s1);
               s3 = s2\<lparr>surplusState := BULK_POWER\<rparr>;
               s4 = (if millis - lastReserveCalcMillis s3 > 5 * 60 * 1000
                     then reserveCalc millis env actValue s3 else s3);
               p0 = c_trunc (fmul (fsub (fmul (float_of_int (solarPower s4)) EFFICIENCY_MPPT)
                                        (float_of_int (batteryReserve s4)))
                                  EFFICIENCY_INVERTER);
               p1 = max p0 0;
               p2 = min p1 (surplusUpperPowerLimit s4);
               s5 = s4\<lparr>surplusPower := p2\<rparr>;
               backPower = max (u16 (surplusPower s5)) requestedPower
           in (backPower, s5)))))"

text \<open>The shared body of \<open>case State::IDLE\<close> (after its own line) and \<open>BULK_POWER\<close>.\<close>

definition case_BULK_POWER :: "int \<Rightarrow> SurplusPowerClass \<Rightarrow> int \<times> SurplusPowerClass" where
  "case_BULK_POWER requestedPower s =
     (0, s\<lparr>surplusPower := max (surplusPower s) requestedPower, surplusState := TRY_MORE,
           qualityCounter := 0, overruleCounter := 0, qualityAVG := reset (qualityAVG s)\<rparr>)"

text \<open>The shared body of \<open>MAXIMUM_POWER\<close> and \<open>IN_TARGET\<close>.\<close>

definition case_IN_TARGET :: "32 word \<Rightarrow> real \<Rightarrow> real \<Rightarrow> real \<Rightarrow> SurplusPowerClass
    \<Rightarrow> int \<times> SurplusPowerClass" where
  "case_IN_TARGET millis targetVoltage mpptVoltage avgVoltage s =
    (if avgVoltage \<ge> targetVoltage \<or> mpptVoltage \<ge> targetVoltage then
       (let (addPower, s1) =
              (if millis - lastInTargetMillis s > 60 * 1000
               then (powerStepSize s, s\<lparr>surplusState := TRY_MORE\<rparr>) else (0, s));
            s2 = (if qualityCounter s1 \<noteq> 0
                  then s1\<lparr>qualityAVG :=
                          addNumber (real_of_int (qualityCounter s1)) (qualityAVG s1)\<rparr>
                  else s1)
        in (addPower, s2\<lparr>qualityCounter := 0\<rparr>))
     else (s16 (- powerStepSize s), s\<lparr>surplusState := REDUCE_POWER\<rparr>))"

text \<open>
  The \<open>switch (_surplusState)\<close> of lines 192-267: the power step \<open>addPower\<close> (an
  \<open>int16_t\<close>) and the state after the switch.
\<close>

definition stateMachine :: "32 word \<Rightarrow> real \<Rightarrow> real \<Rightarrow> real \<Rightarrow> int \<Rightarrow> SurplusPowerClass
    \<Rightarrow> int \<times> SurplusPowerClass" where
  "stateMachine millis targetVoltage mpptVoltage avgVoltage requestedPower s =
    (case surplusState s of
       IDLE \<Rightarrow> case_BULK_POWER requestedPower (s\<lparr>errorCounter := 0\<rparr>)
     | BULK_POWER \<Rightarrow> case_BULK_POWER requestedPower s
     | KEEP_LAST_POWER \<Rightarrow>
        (if mpptVoltage \<ge> targetVoltage
         then (powerStepSize s, s\<lparr>surplusState := TRY_MORE\<rparr>)
         else (0, s\<lparr>surplusState := REDUCE_POWER\<rparr>))
     | TRY_MORE \<Rightarrow>
        (if mpptVoltage \<ge> targetVoltage
         then (s16 (2 * powerStepSize s), s)
         else (s16 (- powerStepSize s), s\<lparr>surplusState := REDUCE_POWER\<rparr>))
     | REDUCE_POWER \<Rightarrow>
        (if mpptVoltage \<ge> targetVoltage
         then (0, s\<lparr>lastInTargetMillis := millis, surplusState := IN_TARGET\<rparr>)
         else (s16 (- powerStepSize s), s))
     | MAXIMUM_POWER \<Rightarrow> case_IN_TARGET millis targetVoltage mpptVoltage avgVoltage s
     | IN_TARGET \<Rightarrow> case_IN_TARGET millis targetVoltage mpptVoltage avgVoltage s)"

text \<open>The battery current is known, fresh and negative (lines 273-274).\<close>

definition batteryDischarging :: "surplus_config \<Rightarrow> surplus_env \<Rightarrow> bool" where
  "batteryDischarging config env =
     (Battery_Enabled config \<and> isCurrentValid env \<and> getAgeSeconds env < 5
      \<and> getChargeCurrent env < 0)"

text \<open>Lines 271-281: the battery current overrules a step that is not a reduction.\<close>

definition overrule :: "surplus_config \<Rightarrow> surplus_env \<Rightarrow> int \<Rightarrow> SurplusPowerClass
    \<Rightarrow> int \<times> SurplusPowerClass" where
  "overrule config env addPower s =
    (if addPower \<ge> 0 \<and> surplusPower s > 0 \<and> batteryDischarging config env
     then (s16 (- powerStepSize s),
           s\<lparr>surplusState := REDUCE_POWER, overruleCounter := overruleCounter s + 1\<rparr>)
     else (addPower, s))"

text \<open>Lines 283-304 and the return: apply the step, clamp, floor at the requested power.\<close>

definition applyStep :: "int \<Rightarrow> int \<Rightarrow> SurplusPowerClass \<Rightarrow> int \<times> SurplusPowerClass" where
  "applyStep addPower requestedPower s =
    (let s1 = s\<lparr>surplusPower := surplusPower s + addPower\<rparr>;
         s2 = s1\<lparr>surplusPower := max (surplusPower s1) 0\<rparr>;
         s3 = (if surplusPower s2 > surplusUpperPowerLimit s2
               then s2\<lparr>surplusPower := surplusUpperPowerLimit s2,
                       surplusState := MAXIMUM_POWER\<rparr>
               else s2);
         backPower = u16 (surplusPower s3)
     in if requestedPower > backPower
        then (requestedPower, s3\<lparr>qualityCounter := 0, surplusState := KEEP_LAST_POWER\<rparr>)
        else (backPower,
              (if (lastAddPower s3 < 0 \<and> addPower > 0) \<or> (lastAddPower s3 > 0 \<and> addPower < 0)
               then s3\<lparr>qualityCounter := s8 (qualityCounter s3 + 1)\<rparr> else s3)
              \<lparr>lastAddPower := addPower\<rparr>))"

text \<open>
  The regulation target of lines 174-175, in volts:
  \<open>targetVoltage / 1000.0f - 0.1f\<close> in single precision.
\<close>

definition targetVoltage :: "nat \<Rightarrow> real \<Rightarrow> real \<Rightarrow> real" where
  "targetVoltage modeAF absorptionVoltage floatVoltage =
     fsub (fdiv (if modeAF = MODE_ABSORPTION then absorptionVoltage else floatVoltage) 1000)
          (f32 0.1)"

text \<open>The MPPT battery voltage of line 187, in volts: \<open>oMpptVoltage.value() / 1000.0f\<close>.\<close>

definition mpptVoltageOf :: "real \<Rightarrow> real" where
  "mpptVoltageOf oMpptVoltage = fdiv oMpptVoltage 1000"

definition calcAbsorptionFloatMode :: "surplus_config \<Rightarrow> 32 word \<Rightarrow> surplus_env
    \<Rightarrow> SurplusPowerClass \<Rightarrow> int \<Rightarrow> nat \<Rightarrow> int \<times> SurplusPowerClass" where
  "calcAbsorptionFloatMode config millis env s requestedPower modeAF =
    (case (getVoltage_ABSORPTION env, getVoltage_FLOAT env) of
       (Some oAbsorptionVoltage, Some oFloatVoltage) \<Rightarrow>
        (case getVoltage_BATTERY env of
           None \<Rightarrow> (requestedPower, s\<lparr>errorCounter := errorCounter s + 1\<rparr>)
         | Some oMpptVoltage \<Rightarrow>
            (let target = targetVoltage modeAF oAbsorptionVoltage oFloatVoltage;
                 mpptVoltage = mpptVoltageOf oMpptVoltage;
                 s1 = s\<lparr>avgMPPTVoltage := addNumber mpptVoltage (avgMPPTVoltage s)\<rparr>;
                 avgVoltage = getAverage (avgMPPTVoltage s1);
                 (addPower, s2) =
                    stateMachine millis target mpptVoltage avgVoltage requestedPower s1;
                 (addPower', s3) = overrule config env addPower s2
             in applyStep addPower' requestedPower s3))
     | _ \<Rightarrow> (requestedPower, s\<lparr>errorCounter := errorCounter s + 1\<rparr>))"

definition calculateSurplusPower :: "surplus_config \<Rightarrow> 32 word \<Rightarrow> surplus_env
    \<Rightarrow> SurplusPowerClass \<Rightarrow> int \<Rightarrow> int \<times> SurplusPowerClass" where
  "calculateSurplusPower config millis env s requestedPower =
    (if millis - lastCalcMillis s < 5 * 1000 then
       (if surplusPower s \<le> requestedPower then (requestedPower, s)
        else (u16 (surplusPower s), s))
     else
      (let s1 = s\<lparr>lastCalcMillis := millis\<rparr> in
       case getStateOfOperation env of
         None \<Rightarrow> (requestedPower, s1\<lparr>errorCounter := errorCounter s1 + 1\<rparr>)
       | Some vStOfOp \<Rightarrow>
          if stageIEnabled s1 \<and> \<not> stageITempOff s1 \<and> vStOfOp = MODE_BULK
          then calcBulkMode config millis env s1 requestedPower
          else if stageIIEnabled s1 \<and> \<not> stageIITempOff s1
                  \<and> (vStOfOp = MODE_ABSORPTION \<or> vStOfOp = MODE_FLOAT)
          then calcAbsorptionFloatMode config millis env s1 requestedPower vStOfOp
          else (requestedPower, s1\<lparr>surplusState := IDLE, surplusPower := 0\<rparr>)))"

definition switchSurplusOnOff :: "Switch \<Rightarrow> SurplusPowerClass \<Rightarrow> bool \<times> SurplusPowerClass" where
  "switchSurplusOnOff onoff s =
    (case onoff of
       STAGE_I_ON \<Rightarrow> (True, s\<lparr>stageITempOff := False\<rparr>)
     | STAGE_II_ON \<Rightarrow> (True, s\<lparr>stageIITempOff := False\<rparr>)
     | STAGE_I_OFF \<Rightarrow>
         (False, s\<lparr>stageITempOff := True, surplusPower := 0, surplusState := IDLE\<rparr>)
     | STAGE_II_OFF \<Rightarrow>
         (False, s\<lparr>stageIITempOff := True, surplusPower := 0, surplusState := IDLE\<rparr>)
     | STAGE_I_ASK \<Rightarrow> (\<not> stageITempOff s, s)
     | STAGE_II_ASK \<Rightarrow> (\<not> stageIITempOff s, s))"


text \<open>
  The bounds the regulator keeps on its stored surplus power: it stays within
  \<open>[0, _surplusUpperPowerLimit]\<close>, and the limit is a 16-bit unsigned value.
\<close>

definition surplus_inv :: "SurplusPowerClass \<Rightarrow> bool" where
  "surplus_inv s =
     (0 \<le> surplusPower s \<and> surplusPower s \<le> surplusUpperPowerLimit s
      \<and> surplusUpperPowerLimit s \<le> 65535)"

text \<open>
  A call's result \<open>R\<close> (returned power and new state) respects the bounds: the returned
  power is at least the requested power, non-negative and at most the larger of the
  requested power and the upper limit; the new state keeps \<open>surplus_inv\<close> and the limit.
\<close>

definition within_bounds :: "int \<Rightarrow> SurplusPowerClass \<Rightarrow> int \<times> SurplusPowerClass \<Rightarrow> bool" where
  "within_bounds requestedPower s R =
     (requestedPower \<le> fst R \<and> 0 \<le> fst R
      \<and> fst R \<le> max requestedPower (surplusUpperPowerLimit s)
      \<and> surplus_inv (snd R)
      \<and> surplusUpperPowerLimit (snd R) = surplusUpperPowerLimit s)"

text \<open>Concrete inputs used by the examples below.\<close>

definition cfg_ex :: "int \<Rightarrow> surplus_config" where
  "cfg_ex upper = \<lparr>TotalUpperPowerLimit = upper, TargetPowerConsumptionHysteresis = 0,
     Battery_Enabled = True\<rparr>"

text \<open>
  A regulator as constructed with upper limit 800 W (step size 41 W), put into state
  \<open>st\<close> with stored surplus power \<open>p\<close>, the last calculation at 100000 ms and the
  voltage window \<open>w\<close>.
\<close>

definition regulator_ex :: "State \<Rightarrow> int \<Rightarrow> real list \<Rightarrow> SurplusPowerClass" where
  "regulator_ex st p w =
    \<lparr>stageIIEnabled = True, stageIITempOff = False, surplusState = st,
     surplusPower = p, powerStepSize = 41, lastInTargetMillis = 0, lastCalcMillis = 100000,
     surplusUpperPowerLimit = 800, avgMPPTVoltage = \<lparr>countMax = 5, samples = w\<rparr>,
     qualityCounter = 0, qualityAVG = WeightedAVG_init 20, lastAddPower = 0,
     overruleCounter = 0, errorCounter = 0, stageIEnabled = False, stageITempOff = False,
     batteryReserve = 0, batterySafetyPercent = 30, batteryCapacity = 2500,
     durationAbsorptionToSunset = 30, durationNowToAbsorption = 0, solarPower = 0,
     startSoC = 80, lastReserveCalcMillis = 0, avgCellVoltage = WeightedAVG_init 20\<rparr>"

text \<open>
  Readings with the MPPT in mode \<open>mode\<close>, absorption voltage 56.0 V, float voltage
  54.0 V, battery voltage \<open>batt\<close> (mV), solar power \<open>solar\<close> (W), a charging battery
  at state of charge \<open>soc\<close>, local time 16:00 and sunset at 18:30.
\<close>

definition readings_ex :: "nat option \<Rightarrow> real option \<Rightarrow> int \<Rightarrow> real \<Rightarrow> surplus_env" where
  "readings_ex mode batt solar soc =
    \<lparr>getStateOfOperation = mode, getVoltage_ABSORPTION = Some 56000,
     getVoltage_FLOAT = Some 54000, getVoltage_BATTERY = batt,
     getPowerOutputWatts = solar, isCurrentValid = True, getAgeSeconds = 1,
     getChargeCurrent = 2, isSoCValid = True, getSoCAgeSeconds = 1, getSoC = soc,
     getLocalTime = Some (16, 0), sunsetTime = Some (18, 30)\<rparr>"


text \<open>
  Three Stage-I ticks in a row, starting from the idle regulator: at 400000 ms with a
  state of charge of 90 percent, at 405000 ms with 70 percent, at 410000 ms with 90
  percent again.
\<close>

definition stageI_tick1 :: SurplusPowerClass where
  "stageI_tick1 = snd (calcBulkMode (cfg_ex 800) 400000 (readings_ex (Some 3) None 1500 90)
                         (regulator_ex IDLE 0 []) 100)"

definition stageI_tick2 :: SurplusPowerClass where
  "stageI_tick2 = snd (calcBulkMode (cfg_ex 800) 405000 (readings_ex (Some 3) None 1500 70)
                         stageI_tick1 100)"

definition stageI_tick3 :: SurplusPowerClass where
  "stageI_tick3 = snd (calcBulkMode (cfg_ex 800) 410000 (readings_ex (Some 3) None 1500 90)
                         stageI_tick2 100)"


section \<open>Results: power-meter provider\<close>

lemma unat_sub32: "unat ((a::32 word) - b) = (unat a + 2 ^ 32 - unat b) mod 2 ^ 32"
proof -
  have a: "unat a < 2 ^ 32" and b: "unat b < 2 ^ 32"
    using unsigned_less [of a, where ?'a = nat] unsigned_less [of b, where ?'a = nat] by simp_all
  show ?thesis
  proof (cases "unat b \<le> unat a")
    case True
    then have e: "unat a + 2 ^ 32 - unat b = (unat a - unat b) + 2 ^ 32" by simp
    have "unat a - unat b < 2 ^ 32" using a by simp
    then have "(unat a - unat b + 2 ^ 32) mod 2 ^ 32 = unat a - unat b" by simp
    with True e show ?thesis by (simp add: unat_sub_if')
  next
    case False
    then have "unat a + 2 ^ 32 - unat b < 2 ^ 32" by simp
    then have "(unat a + 2 ^ 32 - unat b) mod 2 ^ 32 = unat a + 2 ^ 32 - unat b" by simp
    with False show ?thesis by (simp add: unat_sub_if')
  qed
qed

lemma word32_pos_iff: "((0::32 word) < w) = (unat w \<noteq> 0)"
  by (simp add: word_greater_zero_iff unat_eq_0)

text \<open>
  C10. \<open>isDataValid()\<close> is true exactly when the stored timestamp is non-zero and the
  age of the update, measured on the wrapping 32-bit millisecond counter, is strictly
  below 30000 ms; a provider that never got an update (timestamp still 0) is invalid at
  every time.
\<close>

theorem isDataValid_iff:
  "isDataValid millis p =
     (unat (lastUpdate p) \<noteq> 0 \<and>
      (unat millis + 2 ^ 32 - unat (lastUpdate p)) mod 2 ^ 32 < 30000)
   \<and> isDataValid millis Provider_init = False
   \<and> isDataValid millis (gotUpdate t Provider_init) = (t \<noteq> 0 \<and> millis - t < 30000)"
proof -
  have "isDataValid millis p =
     (unat (lastUpdate p) \<noteq> 0 \<and>
      (unat millis + 2 ^ 32 - unat (lastUpdate p)) mod 2 ^ 32 < 30000)"
    unfolding isDataValid_def
    by (simp add: word32_pos_iff word_less_nat_alt unat_sub32)
  moreover have "isDataValid millis Provider_init = False"
    by (simp add: isDataValid_def Provider_init_def)
  moreover have "isDataValid millis (gotUpdate t Provider_init) = (t \<noteq> 0 \<and> millis - t < 30000)"
    by (simp add: isDataValid_def Provider_init_def gotUpdate_def word_greater_zero_iff)
  ultimately show ?thesis by simp
qed


section \<open>Results: field descriptors\<close>

text \<open>
  C3, as the table has it. Within the HM\_2CH table no two descriptors share the triple
  (channel kind, channel index, field id).
\<close>

theorem descriptor_key_with_kind_unique:
  "distinct (map key_type_ch_field byteAssignment)"
  by (simp add: byteAssignment_def key_type_ch_field_def mk_def)

text \<open>
  C3, as stated, fails on the table: the descriptors at positions 2 and 22 are different
  entries (\<open>TYPE_DC\<close> and \<open>TYPE_INV\<close>) with the same pair \<open>(CH0, FLD_PDC)\<close>, so the
  pairs (channel index, field id) are not distinct.
\<close>

theorem descriptor_key_ch_field_not_unique:
  "byteAssignment ! 2 \<noteq> byteAssignment ! 22
   \<and> key_ch_field (byteAssignment ! 2) = key_ch_field (byteAssignment ! 22)
   \<and> \<not> distinct (map key_ch_field byteAssignment)"
  by (simp add: byteAssignment_def key_ch_field_def mk_def)


section \<open>Results: base power limiter\<close>

lemmas ex_defs = config_ex_def env_ex_def limiter_ex_def inverter_ex_def

lemma u16_id: "0 \<le> x \<Longrightarrow> x \<le> 65535 \<Longrightarrow> u16 x = x"
  by (simp add: u16_def)

text \<open>
  C7. On an active tick with a producing inverter and an acceptable voltage, when the
  meter timestamp is at least 30000 ms old (on the wrapping millisecond counter) and the
  configured lower limit is a 16-bit unsigned value, the loop sends exactly one command:
  the absolute non-persistent limit \<open>lowerLimit\<close>, which it also records.
\<close>

theorem stale_meter_gives_lowerLimit:
  assumes "active_tick config millis env s inverter"
    and "isProducing inverter"
    and "voltage_acceptable config inverter"
    and "30000 \<le> millis - lastPowerMeterUpdate s"
    and "0 \<le> PowerLimiter_LowerPowerLimit config"
    and "PowerLimiter_LowerPowerLimit config \<le> 65535"
  shows "loop config millis env s =
    (s\<lparr>lastLoop := millis,
       lastRequestedPowerLimit := PowerLimiter_LowerPowerLimit config,
       lastCommandSent := millis\<rparr>,
     [sendActivePowerControlRequest (PowerLimiter_LowerPowerLimit config) AbsolutNonPersistent])"
proof -
  from assms(4) have stale: "\<not> millis - lastPowerMeterUpdate s < 30000"
    by (simp add: not_less)
  have n: "newPowerLimit config millis (s\<lparr>lastLoop := millis\<rparr>) = PowerLimiter_LowerPowerLimit config"
    using stale assms(5,6) by (simp add: newPowerLimit_def u16_id)
  from assms(3) have v: "\<not> (udc_CH1 inverter > 0
        \<and> PowerLimiter_VoltageStopThreshold config > 0
        \<and> udc_CH1 inverter + pac_CH0 inverter * PowerLimiter_VoltageLoadCorrectionFactor config
             \<le> PowerLimiter_VoltageStopThreshold config)"
    by (simp add: voltage_acceptable_def correctedVoltage_def)
  show ?thesis
    using assms(1,2) v n unfolding loop_def active_tick_def
    by (simp add: Let_def)
qed

text \<open>Witness for C7: a tick at 90000 ms with the last meter update at 55000 ms.\<close>

theorem stale_meter_gives_lowerLimit_witness:
  "loop config_ex 90000 (env_ex 52\<lparr>getInverterByPos0 := Some ((inverter_ex 52)\<lparr>getLastUpdate := 89000\<rparr>)\<rparr>) (limiter_ex 400)
    = ((limiter_ex 400)\<lparr>lastLoop := 90000, lastRequestedPowerLimit := 50, lastCommandSent := 90000\<rparr>,
       [sendActivePowerControlRequest 50 AbsolutNonPersistent])"
  using stale_meter_gives_lowerLimit [of config_ex 90000
      "env_ex 52\<lparr>getInverterByPos0 := Some ((inverter_ex 52)\<lparr>getLastUpdate := 89000\<rparr>)\<rparr>"
      "limiter_ex 400" "(inverter_ex 52)\<lparr>getLastUpdate := 89000\<rparr>"]
  by (simp add: ex_defs active_tick_def voltage_acceptable_def correctedVoltage_def)

text \<open>
  C4, with the guard the loop has. On an active tick with a producing inverter, a DC
  voltage above zero, an enabled stop threshold and a corrected voltage at or below it,
  the loop sends the stop command followed by the absolute non-persistent limit
  \<open>lowerLimit\<close>, records that limit and the command time, and does nothing else.
\<close>

theorem stop_on_low_voltage:
  assumes "active_tick config millis env s inverter"
    and "isProducing inverter"
    and "0 < udc_CH1 inverter"
    and "0 < PowerLimiter_VoltageStopThreshold config"
    and "correctedVoltage config inverter \<le> PowerLimiter_VoltageStopThreshold config"
    and "0 \<le> PowerLimiter_LowerPowerLimit config"
    and "PowerLimiter_LowerPowerLimit config \<le> 65535"
  shows "loop config millis env s =
    (s\<lparr>lastLoop := millis,
       lastRequestedPowerLimit := PowerLimiter_LowerPowerLimit config,
       lastCommandSent := millis\<rparr>,
     [sendPowerControlRequest False,
      sendActivePowerControlRequest (PowerLimiter_LowerPowerLimit config) AbsolutNonPersistent])"
  using assms unfolding loop_def active_tick_def correctedVoltage_def
  by (simp add: Let_def u16_id)

text \<open>Witness for C4: DC voltage 48 V, corrected 48.2 V, stop threshold 49 V.\<close>

theorem stop_on_low_voltage_witness:
  "loop config_ex 60000 (env_ex 48) (limiter_ex 400) =
    ((limiter_ex 400)\<lparr>lastLoop := 60000, lastRequestedPowerLimit := 50, lastCommandSent := 60000\<rparr>,
     [sendPowerControlRequest False, sendActivePowerControlRequest 50 AbsolutNonPersistent])"
  using stop_on_low_voltage [of config_ex 60000 "env_ex 48" "limiter_ex 400" "inverter_ex 48"]
  by (simp add: ex_defs active_tick_def correctedVoltage_def)

text \<open>
  C4, as stated, fails when the DC voltage reads 0: the corrected voltage 0.2 V is below
  the enabled threshold 49 V and the inverter is producing, yet the loop sends no stop
  command; it sends the ordinary limit 390 W.
\<close>

theorem no_stop_at_zero_dc_voltage:
  "active_tick config_ex 60000 (env_ex 0) (limiter_ex 400) (inverter_ex 0)
   \<and> isProducing (inverter_ex 0)
   \<and> 0 < PowerLimiter_VoltageStopThreshold config_ex
   \<and> correctedVoltage config_ex (inverter_ex 0) \<le> PowerLimiter_VoltageStopThreshold config_ex
   \<and> snd (loop config_ex 60000 (env_ex 0) (limiter_ex 400))
       = [sendActivePowerControlRequest 390 AbsolutNonPersistent]"
  by (simp add: ex_defs active_tick_def correctedVoltage_def loop_def newPowerLimit_def
      u16_def c_trunc_def constrain_def Let_def)

text \<open>
  C2 at failing inputs. With a fresh meter total of 5 W, or of -100 W (feed-in), lower
  limit 50 W and upper limit 800 W, the total minus the margin is below the lower limit,
  but the 16-bit unsigned variable wraps and the loop commands the upper limit 800 W.
\<close>

theorem small_or_negative_meter_total_gives_upperLimit:
  "active_tick config_ex 60000 (env_ex 52) (limiter_ex 5) (inverter_ex 52)
   \<and> isProducing (inverter_ex 52)
   \<and> voltage_acceptable config_ex (inverter_ex 52)
   \<and> (60000::32 word) - lastPowerMeterUpdate (limiter_ex 5) < 30000
   \<and> snd (loop config_ex 60000 (env_ex 52) (limiter_ex 5))
       = [sendActivePowerControlRequest 800 AbsolutNonPersistent]
   \<and> snd (loop config_ex 60000 (env_ex 52) (limiter_ex (- 100)))
       = [sendActivePowerControlRequest 800 AbsolutNonPersistent]"
  by (simp add: ex_defs active_tick_def voltage_acceptable_def correctedVoltage_def loop_def
      newPowerLimit_def u16_def c_trunc_def constrain_def Let_def)

text \<open>
  The same evaluation read against C2: at the 5 W input the commanded limit is not the
  lower limit 50 W.
\<close>

theorem small_meter_total_not_lowerLimit:
  "snd (loop config_ex 60000 (env_ex 52) (limiter_ex 5))
     \<noteq> [sendActivePowerControlRequest (PowerLimiter_LowerPowerLimit config_ex)
           AbsolutNonPersistent]"
  using small_or_negative_meter_total_gives_upperLimit
  by (simp add: config_ex_def)

text \<open>
  Where nothing wraps (the total is at least the margin and fits 16 bits), the new limit
  is the clamped total minus 10.
\<close>

lemma newPowerLimit_without_wrap:
  assumes "millis - lastPowerMeterUpdate s < 30000"
    and "tot = c_trunc (powerMeter1Power s + powerMeter2Power s + powerMeter3Power s)
           + (if PowerLimiter_IsInverterBehindPowerMeter config then lastRequestedPowerLimit s else 0)"
    and "0 \<le> c_trunc (powerMeter1Power s + powerMeter2Power s + powerMeter3Power s)"
    and "0 \<le> lastRequestedPowerLimit s"
    and "10 \<le> tot" and "tot \<le> 65535"
    and "0 \<le> PowerLimiter_LowerPowerLimit config" and "PowerLimiter_LowerPowerLimit config \<le> 65535"
    and "0 \<le> PowerLimiter_UpperPowerLimit config" and "PowerLimiter_UpperPowerLimit config \<le> 65535"
  shows "newPowerLimit config millis s =
     constrain (tot - 10) (PowerLimiter_LowerPowerLimit config) (PowerLimiter_UpperPowerLimit config)"
  using assms by (auto simp add: newPowerLimit_def Let_def u16_id)


section \<open>Results: surplus regulator, bounds of the returned power\<close>

lemmas regulator_ex_defs = cfg_ex_def regulator_ex_def readings_ex_def

lemma updateSettings_fields:
  "surplusUpperPowerLimit (updateSettings config s) = TotalUpperPowerLimit config"
  "stageIEnabled (updateSettings config s) = False"
  "stageIIEnabled (updateSettings config s) = True"
  "startSoC (updateSettings config s) = 80"
  "batteryCapacity (updateSettings config s) = 2500"
  "batterySafetyPercent (updateSettings config s) = 30"
  "durationAbsorptionToSunset (updateSettings config s) = 30"
  "surplusPower (updateSettings config s) = surplusPower s"
  "surplusState (updateSettings config s) = surplusState s"
  by (simp_all add: updateSettings_def Let_def)

lemma surplus_inv_new:
  assumes "0 \<le> TotalUpperPowerLimit config" and "TotalUpperPowerLimit config \<le> 65535"
  shows "surplus_inv (SurplusPowerClass_new config)"
  using assms
  by (simp add: SurplusPowerClass_new_def updateSettings_def SurplusPowerClass_members_def
      surplus_inv_def Let_def)

lemma getTimeToSunset_upper:
  "surplusUpperPowerLimit (snd (getTimeToSunset env s)) = surplusUpperPowerLimit s"
  by (simp add: getTimeToSunset_def Let_def split: option.splits)

lemma reserveCalc_upper:
  "surplusUpperPowerLimit (reserveCalc millis env soc s) = surplusUpperPowerLimit s"
  by (simp add: reserveCalc_def Let_def case_prod_beta getTimeToSunset_upper)

lemma stateMachine_upper:
  "surplusUpperPowerLimit (snd (stateMachine millis t v a r s)) = surplusUpperPowerLimit s"
  by (simp add: stateMachine_def case_BULK_POWER_def case_IN_TARGET_def Let_def
      split: State.splits)

lemma overrule_upper:
  "surplusUpperPowerLimit (snd (overrule config env a s)) = surplusUpperPowerLimit s"
  by (simp add: overrule_def)

lemma applyStep_bounds:
  assumes "0 \<le> surplusUpperPowerLimit s" and "surplusUpperPowerLimit s \<le> 65535"
    and "0 \<le> requestedPower"
  shows "requestedPower \<le> fst (applyStep a requestedPower s)
    \<and> fst (applyStep a requestedPower s) \<le> max requestedPower (surplusUpperPowerLimit s)
    \<and> surplus_inv (snd (applyStep a requestedPower s))
    \<and> surplusUpperPowerLimit (snd (applyStep a requestedPower s)) = surplusUpperPowerLimit s"
proof -
  define p where "p = max (surplusPower s + a) 0"
  define q where "q = (if p > surplusUpperPowerLimit s then surplusUpperPowerLimit s else p)"
  have q: "0 \<le> q" "q \<le> surplusUpperPowerLimit s" "q \<le> 65535"
    using assms by (auto simp: p_def q_def)
  then have u: "u16 q = q" by (simp add: u16_def)
  show ?thesis
    using q u assms unfolding applyStep_def Let_def surplus_inv_def p_def q_def
    by (auto split: if_splits)
qed

lemma within_bounds_error:
  assumes "surplus_inv s" and "0 \<le> requestedPower"
  shows "within_bounds requestedPower s (requestedPower, s\<lparr>errorCounter := e\<rparr>)"
  using assms by (simp add: within_bounds_def surplus_inv_def)

lemma calcAbsorptionFloatMode_bounds:
  assumes "surplus_inv s" and "0 \<le> requestedPower"
  shows "within_bounds requestedPower s
           (calcAbsorptionFloatMode config millis env s requestedPower modeAF)"
proof (cases "getVoltage_ABSORPTION env")
  case None
  then show ?thesis
    using assms by (simp add: calcAbsorptionFloatMode_def within_bounds_error)
next
  case a: (Some av)
  show ?thesis
  proof (cases "getVoltage_FLOAT env")
    case None
    with a show ?thesis
      using assms by (simp add: calcAbsorptionFloatMode_def within_bounds_error)
  next
    case f: (Some fv)
    show ?thesis
    proof (cases "getVoltage_BATTERY env")
      case None
      with a f show ?thesis
        using assms by (simp add: calcAbsorptionFloatMode_def within_bounds_error)
    next
      case b: (Some bv)
      define s1 where "s1 = s\<lparr>avgMPPTVoltage := addNumber (mpptVoltageOf bv) (avgMPPTVoltage s)\<rparr>"
      define sm where "sm = stateMachine millis (targetVoltage modeAF av fv) (mpptVoltageOf bv)
                              (getAverage (avgMPPTVoltage s1)) requestedPower s1"
      define ov where "ov = overrule config env (fst sm) (snd sm)"
      have up: "surplusUpperPowerLimit (snd ov) = surplusUpperPowerLimit s"
        by (simp add: ov_def sm_def s1_def overrule_upper stateMachine_upper)
      have eq: "calcAbsorptionFloatMode config millis env s requestedPower modeAF
                  = applyStep (fst ov) requestedPower (snd ov)"
        using a f b
        by (simp add: calcAbsorptionFloatMode_def Let_def case_prod_beta ov_def sm_def s1_def)
      have lim: "0 \<le> surplusUpperPowerLimit (snd ov)" "surplusUpperPowerLimit (snd ov) \<le> 65535"
        using assms(1) up by (simp_all add: surplus_inv_def)
      from applyStep_bounds [OF lim assms(2), of "fst ov"] assms(2)
      show ?thesis
        unfolding eq within_bounds_def up by simp
    qed
  qed
qed

lemma clamp_u16:
  "0 \<le> u \<Longrightarrow> u \<le> 65535 \<Longrightarrow> u16 (min (max p 0) u) = min (max p 0) u"
  by (simp add: u16_def)

lemma within_bounds_clamped:
  assumes "0 \<le> surplusUpperPowerLimit s" and "surplusUpperPowerLimit s \<le> 65535"
    and "0 \<le> requestedPower"
    and "surplusUpperPowerLimit s4 = surplusUpperPowerLimit s"
    and "p2 = min (max p0 0) (surplusUpperPowerLimit s4)"
  shows "within_bounds requestedPower s
           (max (u16 (surplusPower (s4\<lparr>surplusPower := p2\<rparr>))) requestedPower,
            s4\<lparr>surplusPower := p2\<rparr>)"
  using assms by (auto simp add: within_bounds_def surplus_inv_def clamp_u16)

lemma calcBulkMode_bounds:
  assumes "surplus_inv s" and "0 \<le> requestedPower"
  shows "within_bounds requestedPower s (calcBulkMode config millis env s requestedPower)"
proof -
  have u: "0 \<le> surplusUpperPowerLimit s" "surplusUpperPowerLimit s \<le> 65535"
    using assms(1) by (simp_all add: surplus_inv_def)
  show ?thesis
  proof (cases "socAvailable config env")
    case False
    then show ?thesis
      using assms by (simp add: calcBulkMode_def Let_def within_bounds_error)
  next
    case soc: True
    show ?thesis
    proof (cases "getSoC env \<le> startSoC s - 2 \<or> (getSoC env < startSoC s \<and> surplusState s = IDLE)")
      case True
      with soc show ?thesis
        using assms by (simp add: calcBulkMode_def Let_def within_bounds_def surplus_inv_def)
    next
      case gate: False
      show ?thesis
      proof (cases "getPowerOutputWatts env = - 1")
        case True
        with soc gate show ?thesis
          using assms by (simp add: calcBulkMode_def Let_def within_bounds_def surplus_inv_def)
      next
        case solar: False
        define s1 where "s1 = s\<lparr>solarPower := getPowerOutputWatts env\<rparr>"
        define s2 where "s2 = (if surplusState s1 = IDLE
                     then s1\<lparr>batteryReserve := RESERVE_POWER_MAX,
                             lastReserveCalcMillis := 0, surplusPower := 0,
                             errorCounter := 0\<rparr>
                     else s1)"
        define s3 where "s3 = s2\<lparr>surplusState := BULK_POWER\<rparr>"
        define s4 where "s4 = (if millis - lastReserveCalcMillis s3 > 5 * 60 * 1000
                     then reserveCalc millis env (getSoC env) s3 else s3)"
        define p0 where "p0 = c_trunc (fmul (fsub (fmul (float_of_int (solarPower s4)) EFFICIENCY_MPPT)
                                        (float_of_int (batteryReserve s4)))
                                  EFFICIENCY_INVERTER)"
        define p2 where "p2 = min (max p0 0) (surplusUpperPowerLimit s4)"
        have up: "surplusUpperPowerLimit s4 = surplusUpperPowerLimit s"
          by (simp add: s4_def s3_def s2_def s1_def reserveCalc_upper)
        have eq: "calcBulkMode config millis env s requestedPower =
              (max (u16 (surplusPower (s4\<lparr>surplusPower := p2\<rparr>))) requestedPower,
               s4\<lparr>surplusPower := p2\<rparr>)"
          using soc gate solar
          unfolding calcBulkMode_def Let_def p2_def p0_def s4_def s3_def s2_def s1_def
          by (simp cong: conj_cong)
        show ?thesis
          unfolding eq
          by (rule within_bounds_clamped [OF u assms(2) up p2_def])
      qed
    qed
  qed
qed

text \<open>
  C1, as the code has it. In every state with \<open>0 \<le> _surplusPower \<le> upperLimit \<le> 65535\<close>
  (true after construction and kept by every call) and for every 16-bit requested power,
  a call of \<open>calculateSurplusPower\<close> (throttled, error, Stage-I or Stage-II tick)
  returns a value that is at least the requested power, non-negative, and at most the
  larger of the requested power and the upper limit; so it lies within
  \<open>[0, upperLimit]\<close> whenever the requested power does.
\<close>

theorem calculateSurplusPower_bounds:
  assumes "surplus_inv s" and "0 \<le> requestedPower" and "requestedPower \<le> 65535"
  shows "requestedPower \<le> fst (calculateSurplusPower config millis env s requestedPower)
    \<and> 0 \<le> fst (calculateSurplusPower config millis env s requestedPower)
    \<and> fst (calculateSurplusPower config millis env s requestedPower)
         \<le> max requestedPower (surplusUpperPowerLimit s)
    \<and> surplus_inv (snd (calculateSurplusPower config millis env s requestedPower))
    \<and> surplusUpperPowerLimit (snd (calculateSurplusPower config millis env s requestedPower))
         = surplusUpperPowerLimit s"
proof -
  define s1 where "s1 = s\<lparr>lastCalcMillis := millis\<rparr>"
  have inv1: "surplus_inv s1"
    using assms(1) by (simp add: surplus_inv_def s1_def)
  have up1: "surplusUpperPowerLimit s1 = surplusUpperPowerLimit s"
    by (simp add: s1_def)
  have thr: "u16 (surplusPower s) = surplusPower s"
    using assms(1) by (simp add: surplus_inv_def u16_def)
  have wb1: "within_bounds requestedPower s R" if "within_bounds requestedPower s1 R" for R
    using that by (simp add: within_bounds_def up1)
  have "within_bounds requestedPower s (calculateSurplusPower config millis env s requestedPower)"
  proof (cases "millis - lastCalcMillis s < 5 * 1000")
    case True
    then show ?thesis
      using assms thr by (simp add: calculateSurplusPower_def within_bounds_def surplus_inv_def)
  next
    case False
    show ?thesis
    proof (cases "getStateOfOperation env")
      case None
      have "calculateSurplusPower config millis env s requestedPower
              = (requestedPower, s1\<lparr>errorCounter := errorCounter s1 + 1\<rparr>)"
        using False None by (simp add: calculateSurplusPower_def s1_def)
      then show ?thesis
        using within_bounds_error [OF inv1 assms(2)] wb1 by simp
    next
      case (Some v)
      have eq: "calculateSurplusPower config millis env s requestedPower =
         (if stageIEnabled s1 \<and> \<not> stageITempOff s1 \<and> v = MODE_BULK
          then calcBulkMode config millis env s1 requestedPower
          else if stageIIEnabled s1 \<and> \<not> stageIITempOff s1
                  \<and> (v = MODE_ABSORPTION \<or> v = MODE_FLOAT)
          then calcAbsorptionFloatMode config millis env s1 requestedPower v
          else (requestedPower, s1\<lparr>surplusState := IDLE, surplusPower := 0\<rparr>))"
        using False Some unfolding calculateSurplusPower_def s1_def Let_def by simp
      have idle: "within_bounds requestedPower s1
                    (requestedPower, s1\<lparr>surplusState := IDLE, surplusPower := 0\<rparr>)"
        using inv1 assms(2) by (simp add: within_bounds_def surplus_inv_def)
      show ?thesis
        unfolding eq
        using calcBulkMode_bounds [OF inv1 assms(2)]
          calcAbsorptionFloatMode_bounds [OF inv1 assms(2)] idle wb1
        by (simp split: if_splits)
    qed
  qed
  then show ?thesis by (simp add: within_bounds_def)
qed

text \<open>
  Witness for C1: a Stage-II tick in state \<open>TRY_MORE\<close> with stored surplus 400 W,
  requested power 100 W and upper limit 800 W.
\<close>

theorem calculateSurplusPower_bounds_witness:
  "surplus_inv (regulator_ex TRY_MORE 400 [50, 50, 50, 50])
   \<and> 100 \<le> fst (calculateSurplusPower (cfg_ex 800) 110000
                   (readings_ex (Some 4) (Some 56000) 0 90)
                   (regulator_ex TRY_MORE 400 [50, 50, 50, 50]) 100)
   \<and> fst (calculateSurplusPower (cfg_ex 800) 110000
            (readings_ex (Some 4) (Some 56000) 0 90)
            (regulator_ex TRY_MORE 400 [50, 50, 50, 50]) 100) \<le> 800"
proof -
  have i: "surplus_inv (regulator_ex TRY_MORE 400 [50, 50, 50, 50])"
    by (simp add: surplus_inv_def regulator_ex_def)
  have u: "surplusUpperPowerLimit (regulator_ex TRY_MORE 400 [50, 50, 50, 50]) = 800"
    by (simp add: regulator_ex_def)
  from calculateSurplusPower_bounds [OF i, of 100 "cfg_ex 800" 110000
      "readings_ex (Some 4) (Some 56000) 0 90"] i u
  show ?thesis by simp
qed

text \<open>
  C1, as stated, fails when the requested power exceeds the upper limit: a regulator
  constructed with upper limit 100 W returns the requested 500 W on an error tick (no
  MPPT mode) and on a Stage-II tick alike, above the upper limit.
\<close>

theorem requestedPower_above_upperLimit_returned:
  "surplusUpperPowerLimit (SurplusPowerClass_new (cfg_ex 100)) = 100
   \<and> fst (calculateSurplusPower (cfg_ex 100) 10000 (readings_ex None None 0 90)
            (SurplusPowerClass_new (cfg_ex 100)) 500) = 500
   \<and> fst (calculateSurplusPower (cfg_ex 100) 10000 (readings_ex (Some 4) (Some 56000) 0 90)
            (SurplusPowerClass_new (cfg_ex 100)) 500) = 500"
  by code_simp

text \<open>The example regulator is the constructed one, up to state, power and timestamps.\<close>

lemma SurplusPowerClass_new_ex:
  "SurplusPowerClass_new (cfg_ex 800) = (regulator_ex IDLE 0 [])\<lparr>lastCalcMillis := 0\<rparr>"
  by code_simp


section \<open>Results: surplus regulator, state \<open>TRY_MORE\<close>\<close>

lemma s16_id: "- 32768 \<le> x \<Longrightarrow> x \<le> 32767 \<Longrightarrow> s16 x = x"
  by (simp add: s16_def)

lemma applyStep_in_range:
  assumes "0 \<le> surplusPower s + a"
    and "surplusPower s + a \<le> surplusUpperPowerLimit s"
    and "surplusUpperPowerLimit s \<le> 65535"
    and "requestedPower \<le> surplusPower s + a"
  shows "surplusPower (snd (applyStep a requestedPower s)) = surplusPower s + a
    \<and> surplusState (snd (applyStep a requestedPower s)) = surplusState s
    \<and> fst (applyStep a requestedPower s) = surplusPower s + a"
proof -
  define x where "x = surplusPower s + a"
  have x: "0 \<le> x" "x \<le> surplusUpperPowerLimit s" "requestedPower \<le> x" "x \<le> 65535"
    using assms by (simp_all add: x_def)
  then have u: "u16 x = x" and m: "max x 0 = x"
    by (simp_all add: u16_def)
  show ?thesis
    unfolding applyStep_def Let_def
    using x u m by (simp add: x_def [symmetric])
qed

text \<open>
  C5, as the code has it. In Stage-II state \<open>TRY_MORE\<close>, with the three MPPT voltages
  available, the decision is taken on the instantaneous MPPT battery voltage, compared
  as the code computes both sides in single precision (the battery reading divided by
  1000 against the set-point divided by 1000 minus 0.1). When it is below the target
  and the reduced value stays within \<open>[0, upperLimit]\<close> and is not below the requested
  power, the state becomes \<open>REDUCE_POWER\<close> and the stored surplus power decreases by
  exactly the step size. When it is at or above the target, the battery current does not
  overrule, and the increased value stays within the upper limit and is not below the
  requested power, the stored surplus power increases by twice the step size and the
  state stays \<open>TRY_MORE\<close>.
\<close>

theorem TRY_MORE_step:
  assumes "surplusState s = TRY_MORE"
    and "getVoltage_ABSORPTION env = Some av"
    and "getVoltage_FLOAT env = Some fv"
    and "getVoltage_BATTERY env = Some bv"
    and "0 < powerStepSize s" and "powerStepSize s \<le> 16383"
    and "0 \<le> surplusPower s" and "surplusUpperPowerLimit s \<le> 65535"
  shows
    "(mpptVoltageOf bv < targetVoltage modeAF av fv
      \<and> requestedPower \<le> surplusPower s - powerStepSize s
      \<and> 0 \<le> surplusPower s - powerStepSize s
      \<and> surplusPower s - powerStepSize s \<le> surplusUpperPowerLimit s
      \<longrightarrow> surplusState (snd (calcAbsorptionFloatMode config millis env s requestedPower modeAF))
            = REDUCE_POWER
        \<and> surplusPower (snd (calcAbsorptionFloatMode config millis env s requestedPower modeAF))
            = surplusPower s - powerStepSize s)
     \<and> (mpptVoltageOf bv \<ge> targetVoltage modeAF av fv
      \<and> \<not> (surplusPower s > 0 \<and> batteryDischarging config env)
      \<and> requestedPower \<le> surplusPower s + 2 * powerStepSize s
      \<and> surplusPower s + 2 * powerStepSize s \<le> surplusUpperPowerLimit s
      \<longrightarrow> surplusState (snd (calcAbsorptionFloatMode config millis env s requestedPower modeAF))
            = TRY_MORE
        \<and> surplusPower (snd (calcAbsorptionFloatMode config millis env s requestedPower modeAF))
            = surplusPower s + 2 * powerStepSize s)"
proof -
  define v where "v = mpptVoltageOf bv"
  define s1 where "s1 = s\<lparr>avgMPPTVoltage := addNumber v (avgMPPTVoltage s)\<rparr>"
  define t where "t = targetVoltage modeAF av fv"
  define sm where "sm = stateMachine millis t v
                          (getAverage (avgMPPTVoltage s1)) requestedPower s1"
  define ov where "ov = overrule config env (fst sm) (snd sm)"
  have eq: "calcAbsorptionFloatMode config millis env s requestedPower modeAF
              = applyStep (fst ov) requestedPower (snd ov)"
    using assms(2-4)
    by (simp add: calcAbsorptionFloatMode_def Let_def case_prod_beta ov_def sm_def s1_def
        t_def v_def)
  have st1: "surplusState s1 = TRY_MORE" "powerStepSize s1 = powerStepSize s"
    "surplusPower s1 = surplusPower s" "surplusUpperPowerLimit s1 = surplusUpperPowerLimit s"
    using assms(1) by (simp_all add: s1_def)
  have dn: "s16 (- powerStepSize s) = - powerStepSize s"
    using assms(5,6) by (simp add: s16_id)
  have up: "s16 (2 * powerStepSize s) = 2 * powerStepSize s"
    using assms(5,6) by (simp add: s16_id)
  have low: "surplusState (snd (applyStep (fst ov) requestedPower (snd ov))) = REDUCE_POWER
        \<and> surplusPower (snd (applyStep (fst ov) requestedPower (snd ov)))
            = surplusPower s - powerStepSize s"
    if "v < t" "requestedPower \<le> surplusPower s - powerStepSize s"
       "0 \<le> surplusPower s - powerStepSize s"
       "surplusPower s - powerStepSize s \<le> surplusUpperPowerLimit s"
  proof -
    have sm': "sm = (- powerStepSize s, s1\<lparr>surplusState := REDUCE_POWER\<rparr>)"
      using that(1) st1 dn by (simp add: sm_def stateMachine_def)
    have ov': "ov = (- powerStepSize s, s1\<lparr>surplusState := REDUCE_POWER\<rparr>)"
      using assms(5) by (simp add: ov_def sm' overrule_def)
    show ?thesis
      using applyStep_in_range [of "s1\<lparr>surplusState := REDUCE_POWER\<rparr>" "- powerStepSize s"
          requestedPower] that assms(8) st1
      by (simp add: ov')
  qed
  have high: "surplusState (snd (applyStep (fst ov) requestedPower (snd ov))) = TRY_MORE
        \<and> surplusPower (snd (applyStep (fst ov) requestedPower (snd ov)))
            = surplusPower s + 2 * powerStepSize s"
    if "v \<ge> t" "\<not> (surplusPower s > 0 \<and> batteryDischarging config env)"
       "requestedPower \<le> surplusPower s + 2 * powerStepSize s"
       "surplusPower s + 2 * powerStepSize s \<le> surplusUpperPowerLimit s"
  proof -
    have sm': "sm = (2 * powerStepSize s, s1)"
      using that(1) st1 up by (simp add: sm_def stateMachine_def)
    have ov': "ov = (2 * powerStepSize s, s1)"
      using that(2) st1 by (auto simp add: ov_def sm' overrule_def)
    show ?thesis
      using applyStep_in_range [of s1 "2 * powerStepSize s" requestedPower]
        that assms(5,7,8) st1
      by (simp add: ov')
  qed
  show ?thesis
    unfolding eq using low high by (simp add: t_def v_def)
qed

text \<open>
  Witness for C5: surplus 400 W, step 41 W, absorption set-point 56.0 V (target
  55.9000015 V in single precision); a battery voltage of 55.0 V gives \<open>REDUCE_POWER\<close>
  and 359 W, one of 56.0 V gives \<open>TRY_MORE\<close> and 482 W.
\<close>

theorem TRY_MORE_step_witness:
  "surplusState (snd (calcAbsorptionFloatMode (cfg_ex 800) 110000
       (readings_ex (Some 4) (Some 55000) 0 90)
       (regulator_ex TRY_MORE 400 [50, 50, 50, 50]) 100 4)) = REDUCE_POWER
   \<and> surplusPower (snd (calcAbsorptionFloatMode (cfg_ex 800) 110000
       (readings_ex (Some 4) (Some 55000) 0 90)
       (regulator_ex TRY_MORE 400 [50, 50, 50, 50]) 100 4)) = 359
   \<and> surplusState (snd (calcAbsorptionFloatMode (cfg_ex 800) 110000
       (readings_ex (Some 4) (Some 56000) 0 90)
       (regulator_ex TRY_MORE 400 [50, 50, 50, 50]) 100 4)) = TRY_MORE
   \<and> surplusPower (snd (calcAbsorptionFloatMode (cfg_ex 800) 110000
       (readings_ex (Some 4) (Some 56000) 0 90)
       (regulator_ex TRY_MORE 400 [50, 50, 50, 50]) 100 4)) = 482"
proof -
  have below: "mpptVoltageOf 55000 < targetVoltage 4 56000 54000"
    by code_simp
  have above: "targetVoltage 4 56000 54000 \<le> mpptVoltageOf 56000"
    by code_simp
  show ?thesis
    using TRY_MORE_step [of "regulator_ex TRY_MORE 400 [50, 50, 50, 50]"
        "readings_ex (Some 4) (Some 55000) 0 90" 56000 54000 55000 4 100 "cfg_ex 800" 110000]
      TRY_MORE_step [of "regulator_ex TRY_MORE 400 [50, 50, 50, 50]"
        "readings_ex (Some 4) (Some 56000) 0 90" 56000 54000 56000 4 100 "cfg_ex 800" 110000]
      below above
    by (simp add: regulator_ex_defs batteryDischarging_def)
qed

text \<open>
  C5, as stated, fails on the smoothed voltage: with earlier samples of 50 V the average
  (before and after the new sample of 56.0 V) is below the target 55.9 V, yet the state
  stays \<open>TRY_MORE\<close> and the stored surplus power rises by twice the step size.
\<close>

theorem TRY_MORE_ignores_smoothed_voltage:
  "surplusState (regulator_ex TRY_MORE 400 [50, 50, 50, 50]) = TRY_MORE
   \<and> getAverage (avgMPPTVoltage (regulator_ex TRY_MORE 400 [50, 50, 50, 50]))
       < targetVoltage 4 56000 54000
   \<and> getAverage (avgMPPTVoltage (snd (calcAbsorptionFloatMode (cfg_ex 800) 110000
       (readings_ex (Some 4) (Some 56000) 0 90)
       (regulator_ex TRY_MORE 400 [50, 50, 50, 50]) 100 4)))
       < targetVoltage 4 56000 54000
   \<and> surplusState (snd (calcAbsorptionFloatMode (cfg_ex 800) 110000
       (readings_ex (Some 4) (Some 56000) 0 90)
       (regulator_ex TRY_MORE 400 [50, 50, 50, 50]) 100 4)) = TRY_MORE
   \<and> surplusPower (snd (calcAbsorptionFloatMode (cfg_ex 800) 110000
       (readings_ex (Some 4) (Some 56000) 0 90)
       (regulator_ex TRY_MORE 400 [50, 50, 50, 50]) 100 4)) = 400 + 2 * 41"
  by code_simp

text \<open>
  The \<open>TRY_MORE\<close> case of the switch does not read the averaged voltage at all: this
  holds whatever the averaging helper returns.
\<close>

lemma TRY_MORE_independent_of_average:
  assumes "surplusState s = TRY_MORE"
  shows "stateMachine millis target mpptVoltage avg1 requestedPower s
       = stateMachine millis target mpptVoltage avg2 requestedPower s"
  using assms by (simp add: stateMachine_def)

text \<open>
  The comparison at the rounding margin. With an absorption set-point of 55200 mV and a
  battery reading of 55100 mV the exact quotients would compare as equal
  (55.1 against 55.2 - 0.1); in single precision the target is 14444135 / 262144
  (55.1000023) and the voltage 7222067 / 131072 (55.0999985), so the voltage is below
  the target and the tick reduces the power.
\<close>

lemma TRY_MORE_at_rounding_margin:
  "(55100 :: real) / 1000 = 55200 / 1000 - 0.1
   \<and> targetVoltage 4 55200 54000 = 14444135 / 262144
   \<and> mpptVoltageOf 55100 = 7222067 / 131072
   \<and> surplusState (snd (calcAbsorptionFloatMode (cfg_ex 800) 110000
       ((readings_ex (Some 4) (Some 55100) 0 90)\<lparr>getVoltage_ABSORPTION := Some 55200\<rparr>)
       (regulator_ex TRY_MORE 400 [50, 50, 50, 50]) 100 4)) = REDUCE_POWER
   \<and> surplusPower (snd (calcAbsorptionFloatMode (cfg_ex 800) 110000
       ((readings_ex (Some 4) (Some 55100) 0 90)\<lparr>getVoltage_ABSORPTION := Some 55200\<rparr>)
       (regulator_ex TRY_MORE 400 [50, 50, 50, 50]) 100 4)) = 359"
  by code_simp

text \<open>
  The other outcomes of a \<open>TRY_MORE\<close> tick, which the side conditions above exclude:
  the reduction stops at 0 W; a requested power above the result gives
  \<open>KEEP_LAST_POWER\<close>; an increase beyond the upper limit gives \<open>MAXIMUM_POWER\<close>; a
  discharging battery turns the increase into a reduction.
\<close>

lemma TRY_MORE_other_outcomes:
  "surplusPower (snd (calcAbsorptionFloatMode (cfg_ex 800) 110000
       (readings_ex (Some 4) (Some 55000) 0 90)
       (regulator_ex TRY_MORE 20 [50, 50, 50, 50]) 0 4)) = 0
   \<and> surplusState (snd (calcAbsorptionFloatMode (cfg_ex 800) 110000
       (readings_ex (Some 4) (Some 55000) 0 90)
       (regulator_ex TRY_MORE 400 [50, 50, 50, 50]) 500 4)) = KEEP_LAST_POWER
   \<and> surplusState (snd (calcAbsorptionFloatMode (cfg_ex 800) 110000
       (readings_ex (Some 4) (Some 56000) 0 90)
       (regulator_ex TRY_MORE 780 [50, 50, 50, 50]) 100 4)) = MAXIMUM_POWER
   \<and> surplusPower (snd (calcAbsorptionFloatMode (cfg_ex 800) 110000
       ((readings_ex (Some 4) (Some 56000) 0 90)\<lparr>getChargeCurrent := - 1\<rparr>)
       (regulator_ex TRY_MORE 400 [50, 50, 50, 50]) 100 4)) = 359"
  by code_simp


section \<open>Results: surplus regulator, Stage I\<close>

text \<open>
  C9. With a usable state of charge, a call of \<open>calcBulkMode\<close> with
  \<open>SoC \<le> startSoC - 2\<close>, or with \<open>SoC < startSoC\<close> in state \<open>IDLE\<close>, sets the surplus
  power to 0 and the state to \<open>IDLE\<close>, changes nothing else and returns the requested
  power; otherwise, with the solar power available, the state becomes \<open>BULK_POWER\<close>.
  The constructed regulator has \<open>startSoC = 80\<close>.
\<close>

theorem bulk_mode_soc_hysteresis:
  "(socAvailable config env
     \<and> (getSoC env \<le> startSoC s - 2 \<or> (getSoC env < startSoC s \<and> surplusState s = IDLE))
     \<longrightarrow> calcBulkMode config millis env s requestedPower
           = (requestedPower, s\<lparr>surplusPower := 0, surplusState := IDLE\<rparr>))
   \<and> (socAvailable config env
     \<and> \<not> (getSoC env \<le> startSoC s - 2 \<or> (getSoC env < startSoC s \<and> surplusState s = IDLE))
     \<and> getPowerOutputWatts env \<noteq> - 1
     \<longrightarrow> surplusState (snd (calcBulkMode config millis env s requestedPower)) = BULK_POWER)
   \<and> startSoC (SurplusPowerClass_new config) = 80"
proof -
  have a: "calcBulkMode config millis env s requestedPower
           = (requestedPower, s\<lparr>surplusPower := 0, surplusState := IDLE\<rparr>)"
    if "socAvailable config env"
      "getSoC env \<le> startSoC s - 2 \<or> (getSoC env < startSoC s \<and> surplusState s = IDLE)"
    using that unfolding calcBulkMode_def Let_def by (simp cong: conj_cong)
  have b: "surplusState (snd (calcBulkMode config millis env s requestedPower)) = BULK_POWER"
    if "socAvailable config env"
      "\<not> (getSoC env \<le> startSoC s - 2 \<or> (getSoC env < startSoC s \<and> surplusState s = IDLE))"
      "getPowerOutputWatts env \<noteq> - 1"
  proof -
    have rc: "surplusState (reserveCalc millis env x r) = surplusState r" for x r
      by (simp add: reserveCalc_def getTimeToSunset_def Let_def case_prod_beta
          split: option.splits)
    show ?thesis
      using that unfolding calcBulkMode_def Let_def by (simp add: rc cong: conj_cong)
  qed
  have c: "startSoC (SurplusPowerClass_new config) = 80"
    by (simp add: SurplusPowerClass_new_def updateSettings_fields)
  from a b c show ?thesis by blast
qed

text \<open>
  Witness for C9 with \<open>startSoC = 80\<close>: idle at 79 percent stays idle; active at 78
  percent goes idle; active at 79 percent stays active; idle at 80 percent activates.
\<close>

theorem bulk_mode_soc_hysteresis_witness:
  "calcBulkMode (cfg_ex 800) 400000 (readings_ex (Some 3) None 1500 79) (regulator_ex IDLE 0 []) 100
     = (100, regulator_ex IDLE 0 [])
   \<and> calcBulkMode (cfg_ex 800) 400000 (readings_ex (Some 3) None 1500 78)
        (regulator_ex BULK_POWER 300 []) 100
     = (100, regulator_ex IDLE 0 [])
   \<and> surplusState (snd (calcBulkMode (cfg_ex 800) 400000 (readings_ex (Some 3) None 1500 79)
        (regulator_ex BULK_POWER 300 []) 100)) = BULK_POWER
   \<and> surplusState (snd (calcBulkMode (cfg_ex 800) 400000 (readings_ex (Some 3) None 1500 80)
        (regulator_ex IDLE 0 []) 100)) = BULK_POWER"
  using bulk_mode_soc_hysteresis [of "cfg_ex 800" "readings_ex (Some 3) None 1500 79"
      "regulator_ex IDLE 0 []" 400000 100]
    bulk_mode_soc_hysteresis [of "cfg_ex 800" "readings_ex (Some 3) None 1500 78"
      "regulator_ex BULK_POWER 300 []" 400000 100]
    bulk_mode_soc_hysteresis [of "cfg_ex 800" "readings_ex (Some 3) None 1500 79"
      "regulator_ex BULK_POWER 300 []" 400000 100]
    bulk_mode_soc_hysteresis [of "cfg_ex 800" "readings_ex (Some 3) None 1500 80"
      "regulator_ex IDLE 0 []" 400000 100]
  by (simp add: regulator_ex_defs socAvailable_def)

lemma getTimeToSunset_fields:
  "fst (getTimeToSunset env a) = fst (getTimeToSunset env b)"
  "batteryCapacity (snd (getTimeToSunset env a)) = batteryCapacity a"
  "batterySafetyPercent (snd (getTimeToSunset env a)) = batterySafetyPercent a"
  "durationAbsorptionToSunset (snd (getTimeToSunset env a)) = durationAbsorptionToSunset a"
  "lastReserveCalcMillis (snd (getTimeToSunset env a)) = lastReserveCalcMillis a"
  by (simp_all add: getTimeToSunset_def Let_def split: option.splits)

lemma reserveCalc_fields:
  assumes "minutes = s16 (fst (getTimeToSunset env r) - durationAbsorptionToSunset r)"
  shows "lastReserveCalcMillis (reserveCalc millis env soc r) = millis"
    and "batteryReserve (reserveCalc millis env soc r) =
          (if 0 < minutes
           then max (c_trunc (reserveFormula (batteryCapacity r) soc minutes
                                (batterySafetyPercent r))) 0
           else RESERVE_POWER_MAX)"
proof -
  define r1 where "r1 = r\<lparr>lastReserveCalcMillis := millis\<rparr>"
  define g where "g = getTimeToSunset env r1"
  have m: "s16 (fst g - durationAbsorptionToSunset (snd g)) = minutes"
    using getTimeToSunset_fields(1) [of env r1 r]
    by (simp add: g_def assms getTimeToSunset_fields(4)) (simp add: r1_def)
  have f: "batteryCapacity (snd g) = batteryCapacity r"
    "batterySafetyPercent (snd g) = batterySafetyPercent r"
    "lastReserveCalcMillis (snd g) = millis"
    by (simp_all add: g_def getTimeToSunset_fields) (simp_all add: r1_def)
  have eq: "reserveCalc millis env soc r =
    (let s3 = (snd g)\<lparr>durationNowToAbsorption := minutes\<rparr>
     in if durationNowToAbsorption s3 > 0
        then s3\<lparr>batteryReserve :=
                 max (c_trunc (reserveFormula (batteryCapacity s3) soc
                        (durationNowToAbsorption s3) (batterySafetyPercent s3))) 0\<rparr>
        else s3\<lparr>batteryReserve := RESERVE_POWER_MAX, durationNowToAbsorption := 0\<rparr>)"
    unfolding reserveCalc_def Let_def case_prod_beta g_def [symmetric] r1_def [symmetric] m
    by simp
  show "lastReserveCalcMillis (reserveCalc millis env soc r) = millis"
    unfolding eq Let_def using f by simp
  show "batteryReserve (reserveCalc millis env soc r) =
          (if 0 < minutes
           then max (c_trunc (reserveFormula (batteryCapacity r) soc minutes
                                (batterySafetyPercent r))) 0
           else RESERVE_POWER_MAX)"
    unfolding eq Let_def using f by simp
qed

text \<open>
  C8, as the code has it. On a Stage-I tick that gets past the gates (usable state of
  charge above the thresholds, solar power available), with \<open>minutes\<close> the time to
  sunset minus the configured lead time and \<open>lastCalc\<close> the time of the last
  calculation, taken as 0 when Stage I is entered from \<open>IDLE\<close>: when more than 300000
  ms have passed since \<open>lastCalc\<close>, the reserve is recalculated and the time recorded;
  with \<open>minutes > 0\<close> it becomes
  \<open>batteryCapacity * (0.998 - SoC/100) / minutes * 60 * (1 + safetyPercent/100)\<close>
  evaluated in single precision, truncated to whole watts and clamped at 0, and with
  \<open>minutes \<le> 0\<close> it becomes 99999. Otherwise nothing is recalculated: the stored
  reserve is kept, or is 99999 after an entry from \<open>IDLE\<close>.
\<close>

theorem bulk_reserve:
  assumes "socAvailable config env"
    and "\<not> (getSoC env \<le> startSoC s - 2 \<or> (getSoC env < startSoC s \<and> surplusState s = IDLE))"
    and "getPowerOutputWatts env \<noteq> - 1"
    and "minutes = s16 (fst (getTimeToSunset env s) - durationAbsorptionToSunset s)"
    and "lastCalc = (if surplusState s = IDLE then 0 else lastReserveCalcMillis s)"
  shows
    "(millis - lastCalc > 5 * 60 * 1000 \<and> 0 < minutes \<longrightarrow>
        batteryReserve (snd (calcBulkMode config millis env s requestedPower))
          = max (c_trunc (reserveFormula (batteryCapacity s) (getSoC env) minutes
                            (batterySafetyPercent s))) 0
        \<and> 0 \<le> batteryReserve (snd (calcBulkMode config millis env s requestedPower))
        \<and> lastReserveCalcMillis (snd (calcBulkMode config millis env s requestedPower)) = millis)
     \<and> (millis - lastCalc > 5 * 60 * 1000 \<and> minutes \<le> 0 \<longrightarrow>
        batteryReserve (snd (calcBulkMode config millis env s requestedPower))
          = RESERVE_POWER_MAX
        \<and> lastReserveCalcMillis (snd (calcBulkMode config millis env s requestedPower)) = millis)
     \<and> (\<not> millis - lastCalc > 5 * 60 * 1000 \<longrightarrow>
        batteryReserve (snd (calcBulkMode config millis env s requestedPower))
          = (if surplusState s = IDLE then RESERVE_POWER_MAX else batteryReserve s)
        \<and> lastReserveCalcMillis (snd (calcBulkMode config millis env s requestedPower))
            = lastCalc)"
proof -
  define s1 where "s1 = s\<lparr>solarPower := getPowerOutputWatts env\<rparr>"
  define s2 where "s2 = (if surplusState s1 = IDLE
                     then s1\<lparr>batteryReserve := RESERVE_POWER_MAX,
                             lastReserveCalcMillis := 0, surplusPower := 0,
                             errorCounter := 0\<rparr>
                     else s1)"
  define s3 where "s3 = s2\<lparr>surplusState := BULK_POWER\<rparr>"
  define s4 where "s4 = (if millis - lastReserveCalcMillis s3 > 5 * 60 * 1000
                     then reserveCalc millis env (getSoC env) s3 else s3)"
  define p0 where "p0 = c_trunc (fmul (fsub (fmul (float_of_int (solarPower s4)) EFFICIENCY_MPPT)
                                        (float_of_int (batteryReserve s4)))
                                  EFFICIENCY_INVERTER)"
  define p2 where "p2 = min (max p0 0) (surplusUpperPowerLimit s4)"
  have eq: "calcBulkMode config millis env s requestedPower =
              (max (u16 (surplusPower (s4\<lparr>surplusPower := p2\<rparr>))) requestedPower,
               s4\<lparr>surplusPower := p2\<rparr>)"
    using assms(1-3)
    unfolding calcBulkMode_def Let_def p2_def p0_def s4_def s3_def s2_def s1_def
    by (simp cong: conj_cong)
  have l3: "lastReserveCalcMillis s3 = lastCalc"
    by (simp add: s3_def s2_def s1_def assms(5))
  have r3: "batteryReserve s3 = (if surplusState s = IDLE then RESERVE_POWER_MAX
                                  else batteryReserve s)"
    by (simp add: s3_def s2_def s1_def)
  have f3: "batteryCapacity s3 = batteryCapacity s"
    "batterySafetyPercent s3 = batterySafetyPercent s"
    "durationAbsorptionToSunset s3 = durationAbsorptionToSunset s"
    by (simp_all add: s3_def s2_def s1_def)
  have m3: "minutes = s16 (fst (getTimeToSunset env s3) - durationAbsorptionToSunset s3)"
    using getTimeToSunset_fields(1) [of env s3 s] by (simp add: assms(4) f3)
  have due: "batteryReserve s4 =
               (if 0 < minutes
                then max (c_trunc (reserveFormula (batteryCapacity s) (getSoC env) minutes
                                     (batterySafetyPercent s))) 0
                else RESERVE_POWER_MAX)
             \<and> lastReserveCalcMillis s4 = millis"
    if "millis - lastCalc > 5 * 60 * 1000"
  proof -
    have "s4 = reserveCalc millis env (getSoC env) s3"
      using that by (simp add: s4_def l3)
    then show ?thesis
      using reserveCalc_fields [OF m3, of millis "getSoC env"] by (simp add: f3)
  qed
  have notdue: "batteryReserve s4 = (if surplusState s = IDLE then RESERVE_POWER_MAX
                                      else batteryReserve s)
                  \<and> lastReserveCalcMillis s4 = lastCalc"
    if "\<not> millis - lastCalc > 5 * 60 * 1000"
  proof -
    have "s4 = s3" using that by (simp add: s4_def l3)
    then show ?thesis using r3 l3 by simp
  qed
  show ?thesis
    unfolding eq using due notdue by simp
qed

text \<open>
  Witness for C8. The numeric example: SoC 50 percent, capacity 2500 Wh, safety 30
  percent, 16:00 with sunset at 18:30 and a lead time of 30 minutes (120 minutes to the
  deadline) give a stored reserve of 809 W; the exact formula gives 809.25. At 18:10 the
  deadline has passed and the reserve is 99999. A tick 200 s after the last calculation
  keeps the stored reserve of 500 W.
\<close>

theorem bulk_reserve_witness:
  "batteryReserve (snd (calcBulkMode (cfg_ex 800) 400000 (readings_ex (Some 3) None 1500 50)
       ((regulator_ex IDLE 0 [])\<lparr>startSoC := 40\<rparr>) 100)) = 809
   \<and> reserveFormula_exact 2500 50 120 30 = 809.25
   \<and> batteryReserve (snd (calcBulkMode (cfg_ex 800) 400000
       ((readings_ex (Some 3) None 1500 90)\<lparr>getLocalTime := Some (18, 10)\<rparr>)
       (regulator_ex IDLE 0 []) 100)) = 99999
   \<and> batteryReserve (snd (calcBulkMode (cfg_ex 800) 200000 (readings_ex (Some 3) None 1500 90)
       ((regulator_ex BULK_POWER 300 [])\<lparr>batteryReserve := 500\<rparr>) 100)) = 500"
proof -
  have m1: "(120::int) = s16 (fst (getTimeToSunset (readings_ex (Some 3) None 1500 50)
                ((regulator_ex IDLE 0 [])\<lparr>startSoC := 40\<rparr>))
              - durationAbsorptionToSunset ((regulator_ex IDLE 0 [])\<lparr>startSoC := 40\<rparr>))"
    by code_simp
  have m2: "(- 10::int) = s16 (fst (getTimeToSunset
                ((readings_ex (Some 3) None 1500 90)\<lparr>getLocalTime := Some (18, 10)\<rparr>)
                (regulator_ex IDLE 0 []))
              - durationAbsorptionToSunset (regulator_ex IDLE 0 []))"
    by code_simp
  have m3: "(120::int) = s16 (fst (getTimeToSunset (readings_ex (Some 3) None 1500 90)
                ((regulator_ex BULK_POWER 300 [])\<lparr>batteryReserve := 500\<rparr>))
              - durationAbsorptionToSunset
                  ((regulator_ex BULK_POWER 300 [])\<lparr>batteryReserve := 500\<rparr>))"
    by code_simp
  have f: "max (c_trunc (reserveFormula 2500 50 120 30)) 0 = 809"
    by code_simp
  have x: "reserveFormula_exact 2500 50 120 30 = 809.25"
    by (simp add: reserveFormula_exact_def)
  have w1: "batteryReserve (snd (calcBulkMode (cfg_ex 800) 400000
       (readings_ex (Some 3) None 1500 50)
       ((regulator_ex IDLE 0 [])\<lparr>startSoC := 40\<rparr>) 100)) = 809"
    using bulk_reserve [of "cfg_ex 800" "readings_ex (Some 3) None 1500 50"
        "(regulator_ex IDLE 0 [])\<lparr>startSoC := 40\<rparr>" 120 0 400000 100] m1 f
    by (simp add: regulator_ex_defs socAvailable_def)
  have w2: "batteryReserve (snd (calcBulkMode (cfg_ex 800) 400000
       ((readings_ex (Some 3) None 1500 90)\<lparr>getLocalTime := Some (18, 10)\<rparr>)
       (regulator_ex IDLE 0 []) 100)) = 99999"
    using bulk_reserve [of "cfg_ex 800"
        "(readings_ex (Some 3) None 1500 90)\<lparr>getLocalTime := Some (18, 10)\<rparr>"
        "regulator_ex IDLE 0 []" "- 10" 0 400000 100] m2
    by (simp add: regulator_ex_defs socAvailable_def)
  have w3: "batteryReserve (snd (calcBulkMode (cfg_ex 800) 200000
       (readings_ex (Some 3) None 1500 90)
       ((regulator_ex BULK_POWER 300 [])\<lparr>batteryReserve := 500\<rparr>) 100)) = 500"
    using bulk_reserve [of "cfg_ex 800" "readings_ex (Some 3) None 1500 90"
        "(regulator_ex BULK_POWER 300 [])\<lparr>batteryReserve := 500\<rparr>" 120 0 200000 100] m3
    by (simp add: regulator_ex_defs socAvailable_def)
  from w1 x w2 w3 show ?thesis by simp
qed

text \<open>
  C8, as stated, fails in three ways. The reserve is recalculated at 400000 ms and
  again at 410000 ms, 10 s later, because the tick in between left Stage I and the
  re-entry from \<open>IDLE\<close> restarts the timer. On a Stage-I tick at 200000 ms after an
  entry from \<open>IDLE\<close> the reserve is 99999, not the formula. And at SoC 85 percent with
  30 minutes to the deadline the formula gives 962 exactly, while the single-precision
  product is just below it and 961 is stored.
\<close>

theorem bulk_reserve_not_as_stated:
  "surplusState stageI_tick1 = BULK_POWER \<and> lastReserveCalcMillis stageI_tick1 = 400000
   \<and> surplusState stageI_tick2 = IDLE
   \<and> surplusState stageI_tick3 = BULK_POWER \<and> lastReserveCalcMillis stageI_tick3 = 410000
   \<and> surplusState (snd (calcBulkMode (cfg_ex 800) 200000 (readings_ex (Some 3) None 1500 90)
        (regulator_ex IDLE 0 []) 100)) = BULK_POWER
   \<and> batteryReserve (snd (calcBulkMode (cfg_ex 800) 200000 (readings_ex (Some 3) None 1500 90)
        (regulator_ex IDLE 0 []) 100)) = 99999
   \<and> reserveFormula_exact 2500 85 30 30 = 962
   \<and> batteryReserve (snd (calcBulkMode (cfg_ex 800) 400000
        ((readings_ex (Some 3) None 1500 85)\<lparr>getLocalTime := Some (17, 30)\<rparr>)
        (regulator_ex IDLE 0 []) 100)) = 961"
  by code_simp


section \<open>Results: surplus regulator, missing readings\<close>

text \<open>
  C6. On a tick that is not throttled, whenever a reading the tick needs is missing, the
  call returns the requested power and adds one to the error counter, changing nothing
  else but the calculation time (and the stored solar power, which takes the value -1
  that signals the missing reading): the MPPT operating mode; on a Stage-II tick the
  absorption, float or MPPT battery voltage; on a Stage-I tick the state of charge, or,
  past the state-of-charge gate, the solar panel power. Every case returns a value.
\<close>

theorem missing_reading_counts_error:
  assumes "\<not> millis - lastCalcMillis s < 5 * 1000"
  shows
   "(getStateOfOperation env = None
      \<longrightarrow> calculateSurplusPower config millis env s requestedPower
           = (requestedPower,
              s\<lparr>lastCalcMillis := millis, errorCounter := errorCounter s + 1\<rparr>))
    \<and> ((getStateOfOperation env = Some MODE_ABSORPTION
          \<or> getStateOfOperation env = Some MODE_FLOAT)
        \<and> stageIIEnabled s \<and> \<not> stageIITempOff s
        \<and> (getVoltage_ABSORPTION env = None \<or> getVoltage_FLOAT env = None
             \<or> getVoltage_BATTERY env = None)
      \<longrightarrow> calculateSurplusPower config millis env s requestedPower
           = (requestedPower,
              s\<lparr>lastCalcMillis := millis, errorCounter := errorCounter s + 1\<rparr>))
    \<and> (getStateOfOperation env = Some MODE_BULK
        \<and> stageIEnabled s \<and> \<not> stageITempOff s
        \<and> \<not> socAvailable config env
      \<longrightarrow> calculateSurplusPower config millis env s requestedPower
           = (requestedPower,
              s\<lparr>lastCalcMillis := millis, errorCounter := errorCounter s + 1\<rparr>))
    \<and> (getStateOfOperation env = Some MODE_BULK
        \<and> stageIEnabled s \<and> \<not> stageITempOff s
        \<and> socAvailable config env
        \<and> \<not> (getSoC env \<le> startSoC s - 2
               \<or> (getSoC env < startSoC s \<and> surplusState s = IDLE))
        \<and> getPowerOutputWatts env = - 1
      \<longrightarrow> calculateSurplusPower config millis env s requestedPower
           = (requestedPower,
              s\<lparr>lastCalcMillis := millis, solarPower := - 1,
                errorCounter := errorCounter s + 1\<rparr>))"
proof -
  let ?R = "calculateSurplusPower config millis env s requestedPower"
  let ?E = "(requestedPower, s\<lparr>lastCalcMillis := millis, errorCounter := errorCounter s + 1\<rparr>)"
  have mode: "?R = ?E" if "getStateOfOperation env = None"
    using assms that by (simp add: calculateSurplusPower_def)
  have volt: "?R = ?E"
    if "getStateOfOperation env = Some MODE_ABSORPTION \<or> getStateOfOperation env = Some MODE_FLOAT"
      "stageIIEnabled s" "\<not> stageIITempOff s"
      "getVoltage_ABSORPTION env = None \<or> getVoltage_FLOAT env = None
         \<or> getVoltage_BATTERY env = None"
  proof -
    have ca: "calcAbsorptionFloatMode config millis env r requestedPower v
                = (requestedPower, r\<lparr>errorCounter := errorCounter r + 1\<rparr>)" for r v
      using that(4) by (auto simp add: calcAbsorptionFloatMode_def split: option.splits)
    from that(1) show ?thesis
    proof
      assume "getStateOfOperation env = Some MODE_ABSORPTION"
      then show ?thesis
        using assms that(2,3) by (simp add: calculateSurplusPower_def Let_def ca)
    next
      assume "getStateOfOperation env = Some MODE_FLOAT"
      then show ?thesis
        using assms that(2,3) by (simp add: calculateSurplusPower_def Let_def ca)
    qed
  qed
  have soc: "?R = ?E"
    if "getStateOfOperation env = Some MODE_BULK" "stageIEnabled s" "\<not> stageITempOff s"
      "\<not> socAvailable config env"
  proof -
    have cb: "calcBulkMode config millis env r requestedPower
                = (requestedPower, r\<lparr>errorCounter := errorCounter r + 1\<rparr>)" for r
      using that(4) by (simp add: calcBulkMode_def Let_def)
    show ?thesis
      using assms that(1-3) by (simp add: calculateSurplusPower_def Let_def cb)
  qed
  have solar: "?R = (requestedPower,
              s\<lparr>lastCalcMillis := millis, solarPower := - 1,
                errorCounter := errorCounter s + 1\<rparr>)"
    if "getStateOfOperation env = Some MODE_BULK" "stageIEnabled s" "\<not> stageITempOff s"
      "socAvailable config env"
      "\<not> (getSoC env \<le> startSoC s - 2 \<or> (getSoC env < startSoC s \<and> surplusState s = IDLE))"
      "getPowerOutputWatts env = - 1"
  proof -
    define s1 where "s1 = s\<lparr>lastCalcMillis := millis\<rparr>"
    have g: "\<not> (getSoC env \<le> startSoC s1 - 2
               \<or> (getSoC env < startSoC s1 \<and> surplusState s1 = IDLE))"
      using that(5) by (simp add: s1_def)
    have cb: "calcBulkMode config millis env s1 requestedPower
                = (requestedPower, s1\<lparr>solarPower := - 1, errorCounter := errorCounter s1 + 1\<rparr>)"
      using that(4,6) g unfolding calcBulkMode_def Let_def by (simp cong: conj_cong)
    have "?R = calcBulkMode config millis env s1 requestedPower"
      using assms that(1-3) by (simp add: calculateSurplusPower_def Let_def s1_def)
    then show ?thesis
      by (simp add: cb) (simp add: s1_def)
  qed
  from mode volt soc solar show ?thesis by blast
qed

text \<open>
  Witness for C6: a missing MPPT mode, a missing battery voltage in absorption mode, an
  invalid state of charge in bulk mode and a missing solar power in bulk mode.
\<close>

theorem missing_reading_counts_error_witness:
  "calculateSurplusPower (cfg_ex 800) 110000 (readings_ex None (Some 56000) 1500 90)
      (regulator_ex TRY_MORE 400 []) 100
     = (100, (regulator_ex TRY_MORE 400 [])\<lparr>lastCalcMillis := 110000, errorCounter := 1\<rparr>)
   \<and> calculateSurplusPower (cfg_ex 800) 110000 (readings_ex (Some 4) None 1500 90)
      (regulator_ex TRY_MORE 400 []) 100
     = (100, (regulator_ex TRY_MORE 400 [])\<lparr>lastCalcMillis := 110000, errorCounter := 1\<rparr>)
   \<and> calculateSurplusPower (cfg_ex 800) 110000
      ((readings_ex (Some 3) None 1500 90)\<lparr>isSoCValid := False\<rparr>)
      ((regulator_ex BULK_POWER 400 [])\<lparr>stageIEnabled := True\<rparr>) 100
     = (100, (regulator_ex BULK_POWER 400 [])
               \<lparr>stageIEnabled := True, lastCalcMillis := 110000, errorCounter := 1\<rparr>)
   \<and> calculateSurplusPower (cfg_ex 800) 110000 (readings_ex (Some 3) None (- 1) 90)
      ((regulator_ex BULK_POWER 400 [])\<lparr>stageIEnabled := True\<rparr>) 100
     = (100, (regulator_ex BULK_POWER 400 [])
               \<lparr>stageIEnabled := True, lastCalcMillis := 110000, solarPower := - 1,
                errorCounter := 1\<rparr>)"
  using missing_reading_counts_error [of 110000 "regulator_ex TRY_MORE 400 []"
      "readings_ex None (Some 56000) 1500 90" "cfg_ex 800" 100]
    missing_reading_counts_error [of 110000 "regulator_ex TRY_MORE 400 []"
      "readings_ex (Some 4) None 1500 90" "cfg_ex 800" 100]
    missing_reading_counts_error [of 110000
      "(regulator_ex BULK_POWER 400 [])\<lparr>stageIEnabled := True\<rparr>"
      "(readings_ex (Some 3) None 1500 90)\<lparr>isSoCValid := False\<rparr>" "cfg_ex 800" 100]
    missing_reading_counts_error [of 110000
      "(regulator_ex BULK_POWER 400 [])\<lparr>stageIEnabled := True\<rparr>"
      "readings_ex (Some 3) None (- 1) 90" "cfg_ex 800" 100]
  by (simp add: regulator_ex_defs socAvailable_def)

end
